theory Spec2Isabelle
  imports Complex_Main
begin

section \<open>Numbers, arrays and the JavaScript primitives the engine uses\<close>

text \<open>
  The screens keep the tableau as \<^verbatim>\<open>number[][]\<close>. A number is modelled as a real:
  the finite values of a double, with exact arithmetic (rounding, infinities and NaN
  are not modelled). The two places where the source uses an infinity as a start value
  (\<^verbatim>\<open>Math.max()\<close> of no arguments, \<^verbatim>\<open>minRatio = Infinity\<close>) are modelled with
  \<open>None\<close>. Reading an array element that does not exist yields \<^verbatim>\<open>undefined\<close> in
  JavaScript; a comparison with it is false, arithmetic with it is NaN. Reads whose
  result only feeds a comparison are modelled with \<open>jsnth\<close>; a run in which a missing
  element would enter the arithmetic of the tableau ends in \<open>Undefined_value\<close>.
\<close>

type_synonym table = "real list list"

datatype failure = Thrown string | Undefined_value

definition eps10 :: real where
  "eps10 = 1 / 10000000000"

definition eps12 :: real where
  "eps12 = 1 / 1000000000000"

text \<open>
  1e-9: the margin of the ratio test in the second copy of the single-phase screen, and
  the tolerance of the identity-column property.
\<close>

definition eps9 :: real where
  "eps9 = 1 / 1000000000"

definition jsnth :: "'a list \<Rightarrow> nat \<Rightarrow> 'a option" where
  "jsnth xs i = (if i < length xs then Some (xs ! i) else None)"

text \<open>\<^verbatim>\<open>row[row.length - 1]\<close>: undefined for an empty row.\<close>

definition lastElem :: "'a list \<Rightarrow> 'a option" where
  "lastElem xs = (if xs = [] then None else jsnth xs (length xs - 1))"

text \<open>\<^verbatim>\<open>row[cols - 1]\<close>: index \<open>-1\<close> (undefined) when \<open>cols = 0\<close>.\<close>

definition rhsAt :: "'a list \<Rightarrow> nat \<Rightarrow> 'a option" where
  "rhsAt row cols = (if cols = 0 then None else jsnth row (cols - 1))"

text \<open>\<^verbatim>\<open>xs.indexOf(x)\<close>: the first index holding \<open>x\<close>; \<open>None\<close> is \<open>-1\<close>.\<close>

fun indexOf :: "'a list \<Rightarrow> 'a \<Rightarrow> nat option" where
  "indexOf [] x = None"
| "indexOf (y # ys) x = (if y = x then Some 0 else map_option Suc (indexOf ys x))"

text \<open>\<^verbatim>\<open>Math.max(...xs)\<close>; \<open>None\<close> is \<open>-Infinity\<close>, the value for no arguments.\<close>

fun Math_max :: "real list \<Rightarrow> real option" where
  "Math_max [] = None"
| "Math_max (x # xs) = Some (fold max xs x)"

text \<open>\<^verbatim>\<open>Math.min(...xs)\<close>; \<open>None\<close> is \<open>Infinity\<close>, the value for no arguments.\<close>

fun Math_min :: "real list \<Rightarrow> real option" where
  "Math_min [] = None"
| "Math_min (x # xs) = Some (fold min xs x)"

text \<open>\<^verbatim>\<open>if (Math.abs(v) < 1e-10) v = 0\<close>, the clean-up of the derived rows.\<close>

definition snap10 :: "real \<Rightarrow> real" where
  "snap10 v = (if \<bar>v\<bar> < eps10 then 0 else v)"

text \<open>\<^verbatim>\<open>if (Math.abs(v) < 1e-12) v = 0\<close>, the clean-up inside the pivot.\<close>

definition snap12 :: "real \<Rightarrow> real" where
  "snap12 v = (if \<bar>v\<bar> < eps12 then 0 else v)"

section \<open>Derived rows: \<^verbatim>\<open>computeZjAndCjMinusZj\<close>\<close>

text \<open>
  The CB value of one basis entry:
  \<^verbatim>\<open>const idx = allVars.indexOf(b); if (idx === -1) return 0; return cjRow[idx] ?? 0;\<close>
\<close>

definition cbValue :: "real list \<Rightarrow> string list \<Rightarrow> string \<Rightarrow> real" where
  "cbValue cjRow allVars b =
     (case indexOf allVars b of
        None \<Rightarrow> 0
      | Some idx \<Rightarrow> (case jsnth cjRow idx of None \<Rightarrow> 0 | Some c \<Rightarrow> c))"

text \<open>
  The loops that fill \<^verbatim>\<open>zjRow\<close> and \<^verbatim>\<open>cjZjRow\<close> read \<^verbatim>\<open>cb[i] * table[i][j]\<close>
  for every \<open>i < rowsCount\<close> and \<open>j < cols\<close>. \<open>readable\<close> says that all these
  elements exist.
\<close>

definition readable :: "table \<Rightarrow> string list \<Rightarrow> bool" where
  "readable table basicVars =
     (let rowsCount = length table - 2; cols = length (table ! 0)
      in cols = 0 \<or> rowsCount = 0 \<or>
         (rowsCount \<le> length basicVars \<and>
          list_all (\<lambda>r. cols \<le> length r) (take rowsCount table)))"

definition derivedRows :: "table \<Rightarrow> string list \<Rightarrow> real list \<Rightarrow> string list \<Rightarrow> real list \<times> real list" where
  "derivedRows table basicVars cjRow allVars =
     (let rowsCount = length table - 2;
          cols = length (table ! 0);
          cb = map (cbValue cjRow allVars) basicVars;
          zjRow = map (\<lambda>j. sum_list (map (\<lambda>i. cb ! i * table ! i ! j) [0..<rowsCount])) [0..<cols];
          cjZjRow = map (\<lambda>j. if j < length cjRow then cjRow ! j - zjRow ! j else 0) [0..<cols]
      in (map snap10 zjRow, map snap10 cjZjRow))"

text \<open>
  One row of the ratio test, up to the ratio:
  \<^verbatim>\<open>if (colVal > 1e-10) { const ratio = rhsVal / colVal; ...\<close>.
  \<open>None\<close>: the row fails the test on its coefficient (an undefined coefficient fails
  it too), or the ratio is NaN because the right-hand side is undefined; in both cases
  the row is not selected.
\<close>

definition rowRatio :: "real option \<Rightarrow> real option \<Rightarrow> real option" where
  "rowRatio colVal rhsVal =
     (case colVal of
        None \<Rightarrow> None
      | Some c \<Rightarrow>
          if c > eps10 then (case rhsVal of None \<Rightarrow> None | Some r \<Rightarrow> Some (r / c))
          else None)"

text \<open>
  The loop of the ratio test over the rows' ratios, \<open>i\<close> the index of the next row.
  \<open>minRatio = None\<close> is the start value \<^verbatim>\<open>Infinity\<close>, \<open>leavingIdx = None\<close> is \<open>-1\<close>:
  \<^verbatim>\<open>if (ratio >= -1e-10 && ratio < minRatio - 1e-10) { minRatio = ratio; leavingIdx = i; }\<close>
\<close>

fun ratioLoop :: "real option list \<Rightarrow> nat \<Rightarrow> real option \<Rightarrow> nat option \<Rightarrow> nat option" where
  "ratioLoop [] i minRatio leavingIdx = leavingIdx"
| "ratioLoop (None # rest) i minRatio leavingIdx = ratioLoop rest (Suc i) minRatio leavingIdx"
| "ratioLoop (Some ratio # rest) i minRatio leavingIdx =
     (if ratio \<ge> - eps10 \<and> (case minRatio of None \<Rightarrow> True | Some m \<Rightarrow> ratio < m - eps10)
      then ratioLoop rest (Suc i) (Some ratio) (Some i)
      else ratioLoop rest (Suc i) minRatio leavingIdx)"

text \<open>
  The ratio test as \<^verbatim>\<open>computeZjAndCjMinusZj\<close> writes it: the right-hand side is
  \<^verbatim>\<open>newTable[i][newTable[i].length - 1]\<close>.
\<close>

definition ratios :: "table \<Rightarrow> nat \<Rightarrow> real option list" where
  "ratios rows enteringIndex =
     map (\<lambda>row. rowRatio (jsnth row enteringIndex) (lastElem row)) rows"

definition leavingRow :: "table \<Rightarrow> nat \<Rightarrow> nat option" where
  "leavingRow rows enteringIndex = ratioLoop (ratios rows enteringIndex) 0 None None"

record computed =
  ctable :: table
  centering :: "string option"
  cleaving :: "string option"

text \<open>
  \<^verbatim>\<open>computeZjAndCjMinusZj\<close> of the single-phase screen and of the Phase 2 screen (the
  two are the same text): the entering variable is the first column holding the maximum
  of the variable columns of the Cj-Zj row.
\<close>

definition computeZjAndCjMinusZj ::
  "table \<Rightarrow> string list \<Rightarrow> real list \<Rightarrow> string list \<Rightarrow> failure + computed" where
  "computeZjAndCjMinusZj table basicVars cjRow allVars =
     (if length table < 2 then Inr \<lparr>ctable = table, centering = None, cleaving = None\<rparr>
      else if \<not> readable table basicVars then Inl Undefined_value
      else
        let rowsCount = length table - 2;
            (zjRow, cjZjRow) = derivedRows table basicVars cjRow allVars;
            newTable = take rowsCount table @ [zjRow, cjZjRow];
            cjZjVars = take (length allVars) cjZjRow
        in case Math_max cjZjVars of
             None \<Rightarrow> Inr \<lparr>ctable = newTable, centering = None, cleaving = None\<rparr>
           | Some maxVal \<Rightarrow>
               if maxVal \<le> eps10
               then Inr \<lparr>ctable = newTable, centering = None, cleaving = None\<rparr>
               else (case indexOf cjZjVars maxVal of
                       None \<Rightarrow> Inl Undefined_value
                     | Some enteringIndex \<Rightarrow>
                         let leavingIdx = leavingRow (take rowsCount newTable) enteringIndex
                         in Inr \<lparr>ctable = newTable,
                                 centering = Some (allVars ! enteringIndex),
                                 cleaving = map_option (\<lambda>i. basicVars ! i) leavingIdx\<rparr>))"

text \<open>
  \<^verbatim>\<open>computeZjAndCjMinusZj\<close> of the Phase 1 screen: the same text with the minimum
  in place of the maximum.
\<close>

definition computeZjAndCjMinusZj_Phase1 ::
  "table \<Rightarrow> string list \<Rightarrow> real list \<Rightarrow> string list \<Rightarrow> failure + computed" where
  "computeZjAndCjMinusZj_Phase1 table basicVars cjRow allVars =
     (if length table < 2 then Inr \<lparr>ctable = table, centering = None, cleaving = None\<rparr>
      else if \<not> readable table basicVars then Inl Undefined_value
      else
        let rowsCount = length table - 2;
            (zjRow, cjZjRow) = derivedRows table basicVars cjRow allVars;
            newTable = take rowsCount table @ [zjRow, cjZjRow];
            cjZjVars = take (length allVars) cjZjRow
        in case Math_min cjZjVars of
             None \<Rightarrow> Inr \<lparr>ctable = newTable, centering = None, cleaving = None\<rparr>
           | Some minVal \<Rightarrow>
               if minVal \<ge> - eps10
               then Inr \<lparr>ctable = newTable, centering = None, cleaving = None\<rparr>
               else (case indexOf cjZjVars minVal of
                       None \<Rightarrow> Inl Undefined_value
                     | Some enteringIndex \<Rightarrow>
                         let leavingIdx = leavingRow (take rowsCount newTable) enteringIndex
                         in Inr \<lparr>ctable = newTable,
                                 centering = Some (allVars ! enteringIndex),
                                 cleaving = map_option (\<lambda>i. basicVars ! i) leavingIdx\<rparr>))"

section \<open>The pivot: \<^verbatim>\<open>performPivot\<close>\<close>

text \<open>
  Normalising the pivot row: \<^verbatim>\<open>table[p][j] = table[p][j] / pivotVal\<close> for \<open>j < cols\<close>,
  each result snapped at 1e-12. Elements from \<open>cols\<close> on are not touched.
\<close>

definition normalizeRow :: "nat \<Rightarrow> real \<Rightarrow> real list \<Rightarrow> real list" where
  "normalizeRow cols pivotVal row =
     map (\<lambda>v. snap12 (v / pivotVal)) (take cols row) @ drop cols row"

text \<open>
  Eliminating the pivot column from another constraint row: the row is skipped when
  \<^verbatim>\<open>Math.abs(factor) < 1e-12\<close>, otherwise
  \<^verbatim>\<open>table[i][j] = table[i][j] - factor * table[p][j]\<close> for \<open>j < cols\<close>, snapped at 1e-12.
  \<open>pivotRow\<close> is the pivot row after its normalisation.
\<close>

definition eliminateRow :: "nat \<Rightarrow> nat \<Rightarrow> real list \<Rightarrow> real list \<Rightarrow> real list" where
  "eliminateRow cols pivotColIdx pivotRow row =
     (let factor = row ! pivotColIdx
      in if \<bar>factor\<bar> < eps12 then row
         else map (\<lambda>j. snap12 (row ! j - factor * pivotRow ! j)) [0..<cols] @ drop cols row)"

text \<open>
  The elements the two loops of the pivot read: the first \<open>cols\<close> elements of the
  pivot row, the factor of every other constraint row and, unless that row is skipped,
  its first \<open>cols\<close> elements.
\<close>

definition pivotReadable :: "table \<Rightarrow> nat \<Rightarrow> nat \<Rightarrow> bool" where
  "pivotReadable table pivotRowIdx pivotColIdx =
     (let rowsCount = length table - 2; cols = length (table ! 0)
      in cols \<le> length (table ! pivotRowIdx) \<and>
         list_all
           (\<lambda>i. i = pivotRowIdx \<or>
                (case jsnth (table ! i) pivotColIdx of
                   None \<Rightarrow> False
                 | Some factor \<Rightarrow> \<bar>factor\<bar> < eps12 \<or> cols \<le> length (table ! i)))
           [0..<rowsCount])"

text \<open>
  \<^verbatim>\<open>performPivot\<close> of the single-phase, Phase 1 and Phase 2 screens (the same text).
  It works on a copy of the table. \<^verbatim>\<open>table[0].length\<close> and
  \<^verbatim>\<open>table[pivotRowIdx][pivotColIdx]\<close> raise the engine's TypeError when the row does not
  exist (the engine's text of that error is not modelled); the only error the function
  raises itself is the one for a pivot value below 1e-12.
\<close>

definition performPivot :: "table \<Rightarrow> nat \<Rightarrow> nat \<Rightarrow> failure + table" where
  "performPivot currentTable pivotRowIdx pivotColIdx =
     (if \<not> pivotRowIdx < length currentTable then Inl (Thrown ''TypeError'')
      else
        let rowsCount = length currentTable - 2;
            cols = length (currentTable ! 0)
        in case jsnth (currentTable ! pivotRowIdx) pivotColIdx of
             None \<Rightarrow> Inl Undefined_value
           | Some pivotVal \<Rightarrow>
               if \<bar>pivotVal\<bar> < eps12 then Inl (Thrown ''Pivot value is too close to zero.'')
               else if \<not> pivotReadable currentTable pivotRowIdx pivotColIdx
               then Inl Undefined_value
               else
                 let pivotRow = normalizeRow cols pivotVal (currentTable ! pivotRowIdx)
                 in Inr (map (\<lambda>i. if i = pivotRowIdx then pivotRow
                                    else if i < rowsCount
                                    then eliminateRow cols pivotColIdx pivotRow (currentTable ! i)
                                    else currentTable ! i)
                           [0..<length currentTable]))"

section \<open>The session and its steps (single-phase screen)\<close>

text \<open>
  The React state of a screen. The handlers read the state of the current render and
  queue updates; the state after a handler is the old state with the updates applied in
  order. The equations shown on screen and the copy kept for reset are left out.
\<close>

record state =
  simplexTable :: table
  variables :: "string list"
  cj :: "real list"
  basicVariables :: "string list"
  enteringVar :: "string option"
  leavingVar :: "string option"
  iteration :: nat
  message :: "string option"

text \<open>
  The ratio test as the handlers write it: the right-hand side is
  \<^verbatim>\<open>simplexTable[i][cols - 1]\<close>.
\<close>

definition ratiosAt :: "table \<Rightarrow> nat \<Rightarrow> nat \<Rightarrow> real option list" where
  "ratiosAt rows cols enteringIndex =
     map (\<lambda>row. rowRatio (jsnth row enteringIndex) (rhsAt row cols)) rows"

definition leavingRowAt :: "table \<Rightarrow> nat \<Rightarrow> nat \<Rightarrow> nat option" where
  "leavingRowAt rows cols enteringIndex = ratioLoop (ratiosAt rows cols enteringIndex) 0 None None"

text \<open>
  The \<^verbatim>\<open>try { ... } catch (err) { setMessage("Error during pivot: " + err.message) }\<close>
  block of \<^verbatim>\<open>handleNextIteration\<close>, for the leaving row and entering column found
  before it. \<^verbatim>\<open>newBasics[leavingRowIdx] = variables[enteringIndex]\<close> would extend the
  array or store \<^verbatim>\<open>undefined\<close> when an index is out of range; the model stops there.
\<close>

definition pivotStep :: "state \<Rightarrow> nat \<Rightarrow> nat \<Rightarrow> failure + state" where
  "pivotStep s leavingRowIdx enteringIndex =
     (case performPivot (simplexTable s) leavingRowIdx enteringIndex of
        Inl (Thrown m) \<Rightarrow> Inr (s\<lparr>message := Some (''Error during pivot: '' @ m)\<rparr>)
      | Inl Undefined_value \<Rightarrow> Inl Undefined_value
      | Inr newTable \<Rightarrow>
          if \<not> (leavingRowIdx < length (basicVariables s) \<and> enteringIndex < length (variables s))
          then Inl Undefined_value
          else
            let newBasics = (basicVariables s)[leavingRowIdx := variables s ! enteringIndex]
            in (case computeZjAndCjMinusZj newTable newBasics (cj s) (variables s) of
                 Inl (Thrown m) \<Rightarrow> Inr (s\<lparr>message := Some (''Error during pivot: '' @ m)\<rparr>)
               | Inl Undefined_value \<Rightarrow> Inl Undefined_value
               | Inr computed \<Rightarrow>
                   let s1 = s\<lparr>simplexTable := ctable computed,
                              basicVariables := newBasics,
                              enteringVar :=
                                (case centering computed of
                                   Some e \<Rightarrow> Some e
                                 | None \<Rightarrow> Some (variables s ! enteringIndex)),
                              leavingVar :=
                                (case cleaving computed of
                                   Some l \<Rightarrow> Some l
                                 | None \<Rightarrow> Some (basicVariables s ! leavingRowIdx)),
                              iteration := iteration s + 1\<rparr>;
                       cjZjNow = take (length (variables s)) (last (ctable computed))
                   in if (case Math_max cjZjNow of None \<Rightarrow> True | Some maxNow \<Rightarrow> maxNow \<le> eps10)
                      then Inr (s1\<lparr>message := Some ''Optimal solution reached.'',
                                   enteringVar := None, leavingVar := None\<rparr>)
                      else Inr (s1\<lparr>message := None\<rparr>)))"

text \<open>\<^verbatim>\<open>handleNextIteration\<close> of the single-phase screen.\<close>

definition handleNextIteration :: "state \<Rightarrow> failure + state" where
  "handleNextIteration s0 =
     (let s = s0\<lparr>message := None\<rparr>
      in if length (simplexTable s) < 2 then Inr s
         else
           let rowsCount = length (simplexTable s) - 2;
               cols = length (simplexTable s ! 0);
               cjZjRow = last (simplexTable s);
               cjZjVars = take (length (variables s)) cjZjRow;
               optimal = s\<lparr>enteringVar := None, leavingVar := None,
                           message := Some ''Optimal solution reached.''\<rparr>
           in case Math_max cjZjVars of
                None \<Rightarrow> Inr optimal
              | Some maxVal \<Rightarrow>
                  if maxVal \<le> eps10 then Inr optimal
                  else (case indexOf cjZjVars maxVal of
                          None \<Rightarrow> Inl Undefined_value
                        | Some enteringIndex \<Rightarrow>
                            (case leavingRowAt (take rowsCount (simplexTable s)) cols enteringIndex of
                               None \<Rightarrow>
                                 Inr (s\<lparr>enteringVar := Some (variables s ! enteringIndex),
                                        leavingVar := None,
                                        message := Some ''Problem is unbounded (no valid leaving variable).''\<rparr>)
                             | Some leavingRowIdx \<Rightarrow> pivotStep s leavingRowIdx enteringIndex)))"

text \<open>
  \<^verbatim>\<open>handleSolveToOptimal\<close> of the single-phase screen: the inner function
  \<^verbatim>\<open>solve(currentTable, currentBasics, currentIteration)\<close>, which calls itself through
  \<^verbatim>\<open>setTimeout\<close> after each pivot. \<open>s\<close> is the session state with the updates queued so
  far; \<open>pivots\<close> is a ghost counter of the calls of \<^verbatim>\<open>performPivot\<close> that returned a
  table, not a variable of the source.
\<close>

function solve :: "state \<Rightarrow> table \<Rightarrow> string list \<Rightarrow> nat \<Rightarrow> nat \<Rightarrow> failure + state \<times> nat" where
  "solve s currentTable currentBasics currentIteration pivots =
     (if currentIteration > 100
      then Inr (s\<lparr>message := Some ''Stopped: reached maximum automatic iterations limit.''\<rparr>, pivots)
      else
        let lastRow = (if currentTable = [] then [] else last currentTable);
            cjZjVars = take (length (variables s)) lastRow;
            optimal = s\<lparr>message := Some ''Optimal solution reached.'',
                        enteringVar := None, leavingVar := None\<rparr>
        in case Math_max cjZjVars of
             None \<Rightarrow> Inr (optimal, pivots)
           | Some maxVal \<Rightarrow>
               if maxVal \<le> eps10 then Inr (optimal, pivots)
               else
                (case indexOf cjZjVars maxVal of
                   None \<Rightarrow> Inl Undefined_value
                 | Some enteringIndex \<Rightarrow>
                     let rowsCount = length currentTable - 2;
                         cols = length (currentTable ! 0)
                     in (case leavingRowAt (take rowsCount currentTable) cols enteringIndex of
                           None \<Rightarrow>
                             Inr (s\<lparr>message := Some ''Problem is unbounded (no valid leaving variable).'',
                                    enteringVar := Some (variables s ! enteringIndex),
                                    leavingVar := None\<rparr>, pivots)
                         | Some leavingRowIdx \<Rightarrow>
                             (case performPivot currentTable leavingRowIdx enteringIndex of
                                Inl (Thrown m) \<Rightarrow>
                                  Inr (s\<lparr>message := Some (''Error during automatic pivot: '' @ m)\<rparr>, pivots)
                              | Inl Undefined_value \<Rightarrow> Inl Undefined_value
                              | Inr newTable \<Rightarrow>
                                  if \<not> leavingRowIdx < length currentBasics then Inl Undefined_value
                                  else
                                    let newBasics = currentBasics[leavingRowIdx := variables s ! enteringIndex]
                                    in (case computeZjAndCjMinusZj newTable newBasics (cj s) (variables s) of
                                          Inl (Thrown m) \<Rightarrow>
                                            Inr (s\<lparr>message := Some (''Error during automatic pivot: '' @ m)\<rparr>, pivots)
                                        | Inl Undefined_value \<Rightarrow> Inl Undefined_value
                                        | Inr computed \<Rightarrow>
                                            solve (s\<lparr>simplexTable := ctable computed,
                                                     basicVariables := newBasics,
                                                     iteration := currentIteration + 1\<rparr>)
                                              (ctable computed) newBasics (currentIteration + 1)
                                              (pivots + 1))))))"
  by pat_completeness auto
termination
  by (relation "measure (\<lambda>(s, currentTable, currentBasics, currentIteration, pivots). 101 - currentIteration)") auto

declare solve.simps [simp del]

text \<open>\<^verbatim>\<open>handleSolveToOptimal\<close>: \<^verbatim>\<open>setMessage(null); solve(simplexTable, basicVariables, iteration)\<close>.\<close>

definition handleSolveToOptimal :: "state \<Rightarrow> failure + state \<times> nat" where
  "handleSolveToOptimal s =
     solve (s\<lparr>message := None\<rparr>) (simplexTable s) (basicVariables s) (iteration s) 0"

section \<open>Phase 1 screen\<close>








text \<open>
  The route parameters the Phase 1 screen hands to the Phase 2 screen, and
  \<^verbatim>\<open>handleProceedToPhase2\<close>: \<^verbatim>\<open>if (!phase1Complete) return;\<close> and then the navigation.
  \<open>objective\<close> and \<open>optType\<close> are the route parameters of the Phase 1 screen itself.
\<close>

record phase2params =
  originalObjective :: "real list"
  phase1Table :: table
  phase1Variables :: "string list"
  phase1BasicVariables :: "string list"
  optType :: string


section \<open>Phase 2 construction: \<^verbatim>\<open>createPhase2Table\<close>\<close>

text \<open>\<^verbatim>\<open>name.startsWith(p)\<close>\<close>

definition startsWith :: "string \<Rightarrow> string \<Rightarrow> bool" where
  "startsWith name p = (take (length p) name = p)"

definition filteredVariables :: "string list \<Rightarrow> string list" where
  "filteredVariables vars = filter (\<lambda>v. \<not> startsWith v ''a'') vars"

definition artificialIndices :: "string list \<Rightarrow> nat list" where
  "artificialIndices vars = filter (\<lambda>i. startsWith (vars ! i) ''a'') [0..<length vars]"

text \<open>
  The loop that rebuilds Cj over the filtered variables, \<open>originalIndex\<close> the running
  counter of the decision variables met so far.
\<close>

fun phase2Objective :: "real list \<Rightarrow> string \<Rightarrow> string list \<Rightarrow> nat \<Rightarrow> real list" where
  "phase2Objective obj opt [] originalIndex = []"
| "phase2Objective obj opt (varName # rest) originalIndex =
     (if startsWith varName ''x'' then
        (if originalIndex < length obj
         then (if opt = ''Minimize'' then - (obj ! originalIndex) else obj ! originalIndex)
                # phase2Objective obj opt rest (Suc originalIndex)
         else 0 # phase2Objective obj opt rest originalIndex)
      else 0 # phase2Objective obj opt rest originalIndex)"

text \<open>
  One constraint row without the artificial columns, with the right-hand side appended:
  \<^verbatim>\<open>for (j < phase1Variables.length) if (!artificialIndices.includes(j)) newRow.push(row[j]);
  if (row.length > 0) newRow.push(row[row.length - 1]);\<close>
\<close>

definition keptIndices :: "string list \<Rightarrow> nat list" where
  "keptIndices vars = filter (\<lambda>j. j \<notin> set (artificialIndices vars)) [0..<length vars]"

definition phase2Row :: "string list \<Rightarrow> real list \<Rightarrow> real list" where
  "phase2Row vars row =
     map (\<lambda>j. row ! j) (keptIndices vars) @ (if length row > 0 then [last row] else [])"

text \<open>
  The basis of Phase 2: every entry that starts with \<open>a\<close> becomes
  \<^verbatim>\<open>filteredVariables.find(v => v.startsWith('s')) || 's1'\<close>.
\<close>

definition newBasicVariables :: "string list \<Rightarrow> string list \<Rightarrow> string list" where
  "newBasicVariables filtered basics =
     map (\<lambda>b. if startsWith b ''a''
               then (case find (\<lambda>v. startsWith v ''s'') filtered of
                       Some availableSlack \<Rightarrow> availableSlack
                     | None \<Rightarrow> ''s1'')
               else b) basics"

text \<open>
  \<^verbatim>\<open>createPhase2Table\<close> of the Phase 2 screen, from its route parameters. The checks for
  parameters that are not arrays cannot fail on the types of the model. A constraint row
  too short for a kept column would put \<^verbatim>\<open>undefined\<close> into the table.
\<close>

definition createPhase2Table :: "phase2params \<Rightarrow> failure + state" where
  "createPhase2Table p =
     (let filtered = filteredVariables (phase1Variables p);
          phase2Obj = phase2Objective (originalObjective p) (optType p) filtered 0;
          constraintRows = take (length (phase1Table p) - 2) (phase1Table p)
      in if \<not> list_all (\<lambda>row. list_all (\<lambda>j. j < length row) (keptIndices (phase1Variables p))) constraintRows
         then Inl Undefined_value
         else
           let newBasics = newBasicVariables filtered (phase1BasicVariables p);
               cols = length filtered + 1;
               phase2Table = map (phase2Row (phase1Variables p)) constraintRows
                               @ [replicate cols 0, replicate cols 0]
           in case computeZjAndCjMinusZj phase2Table newBasics phase2Obj filtered of
                Inl e \<Rightarrow> Inl e
              | Inr computed \<Rightarrow>
                  Inr \<lparr>simplexTable = ctable computed,
                       variables = filtered,
                       cj = phase2Obj,
                       basicVariables = newBasics,
                       enteringVar = centering computed,
                       leavingVar = cleaving computed,
                       iteration = 1,
                       message = None\<rparr>)"

section \<open>The second copy of the single-phase screen\<close>

text \<open>
  The repository holds a second copy of the single-phase screen whose engine has no
  tolerances: the derived rows are not cleaned up, the optimality test is
  \<^verbatim>\<open>maxVal <= 0\<close>, the ratio test is \<^verbatim>\<open>colVal > 0\<close> with
  \<^verbatim>\<open>ratio < minRatio - 1e-9\<close>, and the pivot is refused only when it is exactly zero.
  Its definitions carry the suffix \<open>_alt\<close>.
\<close>

definition derivedRows_alt :: "table \<Rightarrow> string list \<Rightarrow> real list \<Rightarrow> string list \<Rightarrow> real list \<times> real list" where
  "derivedRows_alt table basicVars cjRow allVars =
     (let rowsCount = length table - 2;
          cols = length (table ! 0);
          cb = map (cbValue cjRow allVars) basicVars;
          zjRow = map (\<lambda>j. sum_list (map (\<lambda>i. cb ! i * table ! i ! j) [0..<rowsCount])) [0..<cols];
          cjZjRow = map (\<lambda>j. if j < length cjRow then cjRow ! j - zjRow ! j else 0) [0..<cols]
      in (zjRow, cjZjRow))"

text \<open>
  \<^verbatim>\<open>if (colVal > 0) { const ratio = rhsVal / colVal; if (ratio < minRatio - 1e-9) ...\<close>
\<close>

definition rowRatio_alt :: "real option \<Rightarrow> real option \<Rightarrow> real option" where
  "rowRatio_alt colVal rhsVal =
     (case colVal of
        None \<Rightarrow> None
      | Some c \<Rightarrow>
          if c > 0 then (case rhsVal of None \<Rightarrow> None | Some r \<Rightarrow> Some (r / c))
          else None)"

fun ratioLoop_alt :: "real option list \<Rightarrow> nat \<Rightarrow> real option \<Rightarrow> nat option \<Rightarrow> nat option" where
  "ratioLoop_alt [] i minRatio leavingIdx = leavingIdx"
| "ratioLoop_alt (None # rest) i minRatio leavingIdx = ratioLoop_alt rest (Suc i) minRatio leavingIdx"
| "ratioLoop_alt (Some ratio # rest) i minRatio leavingIdx =
     (if (case minRatio of None \<Rightarrow> True | Some m \<Rightarrow> ratio < m - eps9)
      then ratioLoop_alt rest (Suc i) (Some ratio) (Some i)
      else ratioLoop_alt rest (Suc i) minRatio leavingIdx)"

definition leavingRow_alt :: "table \<Rightarrow> nat \<Rightarrow> nat option" where
  "leavingRow_alt rows enteringIndex =
     ratioLoop_alt (map (\<lambda>row. rowRatio_alt (jsnth row enteringIndex) (lastElem row)) rows) 0 None None"

definition leavingRowAt_alt :: "table \<Rightarrow> nat \<Rightarrow> nat \<Rightarrow> nat option" where
  "leavingRowAt_alt rows cols enteringIndex =
     ratioLoop_alt (map (\<lambda>row. rowRatio_alt (jsnth row enteringIndex) (rhsAt row cols)) rows) 0 None None"

definition computeZjAndCjMinusZj_alt ::
  "table \<Rightarrow> string list \<Rightarrow> real list \<Rightarrow> string list \<Rightarrow> failure + computed" where
  "computeZjAndCjMinusZj_alt table basicVars cjRow allVars =
     (if length table < 2 then Inr \<lparr>ctable = table, centering = None, cleaving = None\<rparr>
      else if \<not> readable table basicVars then Inl Undefined_value
      else
        let rowsCount = length table - 2;
            (zjRow, cjZjRow) = derivedRows_alt table basicVars cjRow allVars;
            newTable = take rowsCount table @ [zjRow, cjZjRow];
            cjZjVars = take (length allVars) cjZjRow
        in case Math_max cjZjVars of
             None \<Rightarrow> Inr \<lparr>ctable = newTable, centering = None, cleaving = None\<rparr>
           | Some maxVal \<Rightarrow>
               if maxVal \<le> 0
               then Inr \<lparr>ctable = newTable, centering = None, cleaving = None\<rparr>
               else (case indexOf cjZjVars maxVal of
                       None \<Rightarrow> Inl Undefined_value
                     | Some enteringIndex \<Rightarrow>
                         let leavingIdx = leavingRow_alt (take rowsCount newTable) enteringIndex
                         in Inr \<lparr>ctable = newTable,
                                 centering = Some (allVars ! enteringIndex),
                                 cleaving = map_option (\<lambda>i. basicVars ! i) leavingIdx\<rparr>))"

definition normalizeRow_alt :: "nat \<Rightarrow> real \<Rightarrow> real list \<Rightarrow> real list" where
  "normalizeRow_alt cols pivotVal row = map (\<lambda>v. v / pivotVal) (take cols row) @ drop cols row"

definition eliminateRow_alt :: "nat \<Rightarrow> nat \<Rightarrow> real list \<Rightarrow> real list \<Rightarrow> real list" where
  "eliminateRow_alt cols pivotColIdx pivotRow row =
     (let factor = row ! pivotColIdx
      in if \<bar>factor\<bar> < eps12 then row
         else map (\<lambda>j. row ! j - factor * pivotRow ! j) [0..<cols] @ drop cols row)"

text \<open>
  \<^verbatim>\<open>performPivot\<close> of the second copy:
  \<^verbatim>\<open>if (pivotVal === 0) throw new Error("Pivot value is zero.")\<close>, no clean-up of the
  results.
\<close>

definition performPivot_alt :: "table \<Rightarrow> nat \<Rightarrow> nat \<Rightarrow> failure + table" where
  "performPivot_alt currentTable pivotRowIdx pivotColIdx =
     (if \<not> pivotRowIdx < length currentTable then Inl (Thrown ''TypeError'')
      else
        let rowsCount = length currentTable - 2;
            cols = length (currentTable ! 0)
        in case jsnth (currentTable ! pivotRowIdx) pivotColIdx of
             None \<Rightarrow> Inl Undefined_value
           | Some pivotVal \<Rightarrow>
               if pivotVal = 0 then Inl (Thrown ''Pivot value is zero.'')
               else if \<not> pivotReadable currentTable pivotRowIdx pivotColIdx
               then Inl Undefined_value
               else
                 let pivotRow = normalizeRow_alt cols pivotVal (currentTable ! pivotRowIdx)
                 in Inr (map (\<lambda>i. if i = pivotRowIdx then pivotRow
                                    else if i < rowsCount
                                    then eliminateRow_alt cols pivotColIdx pivotRow (currentTable ! i)
                                    else currentTable ! i)
                           [0..<length currentTable]))"

text \<open>
  \<^verbatim>\<open>handleSolveToOptimal\<close> of the second copy: a \<^verbatim>\<open>while (true)\<close> loop bounded by the
  local counter \<^verbatim>\<open>safety\<close> (\<^verbatim>\<open>safety++; if (safety > maxIterations) ...\<close>, with
  \<^verbatim>\<open>maxIterations = 100\<close>). After each pivot the loop queues the state updates and then
  assigns the new table and basis to \<^verbatim>\<open>simplexTable\<close> and \<^verbatim>\<open>basicVariables\<close>, which
  are \<^verbatim>\<open>const\<close> bindings of the component (the two assignments are under
  \<^verbatim>\<open>@ts-ignore\<close>). JavaScript raises a TypeError on an assignment to a \<^verbatim>\<open>const\<close>
  binding, which the \<^verbatim>\<open>catch\<close> of the loop turns into the message
  \<^verbatim>\<open>"Error during automatic pivot: ..."\<close> (the engine's text of the error is not
  modelled). \<open>constWritable\<close> keeps both readings: \<open>False\<close> is JavaScript as specified,
  \<open>True\<close> is the behaviour the comments of the loop intend, the assignments taking
  effect. \<open>safety\<close> is the value of the counter before the pass; \<open>pivots\<close> is a ghost
  counter as in \<open>solve\<close>.
\<close>

function solve_alt ::
  "bool \<Rightarrow> state \<Rightarrow> table \<Rightarrow> string list \<Rightarrow> nat \<Rightarrow> nat \<Rightarrow> failure + state \<times> nat" where
  "solve_alt constWritable s simplexTable' basicVariables' safety pivots =
     (if safety + 1 > 100
      then Inr (s\<lparr>message := Some ''Stopped: reached maximum automatic iterations limit.''\<rparr>, pivots)
      else
        let lastRow = (if simplexTable' = [] then [] else last simplexTable');
            cjZjVars = take (length (variables s)) lastRow;
            optimal = s\<lparr>message := Some ''Optimal solution reached.'',
                        enteringVar := None, leavingVar := None\<rparr>
        in case Math_max cjZjVars of
             None \<Rightarrow> Inr (optimal, pivots)
           | Some maxVal \<Rightarrow>
               if maxVal \<le> 0 then Inr (optimal, pivots)
               else
                (case indexOf cjZjVars maxVal of
                   None \<Rightarrow> Inl Undefined_value
                 | Some enteringIndex \<Rightarrow>
                     let rowsCount = length simplexTable' - 2;
                         cols = length (simplexTable' ! 0)
                     in (case leavingRowAt_alt (take rowsCount simplexTable') cols enteringIndex of
                           None \<Rightarrow>
                             Inr (s\<lparr>message := Some ''Problem is unbounded (no valid leaving variable).'',
                                    enteringVar := Some (variables s ! enteringIndex),
                                    leavingVar := None\<rparr>, pivots)
                         | Some leavingRowIdx \<Rightarrow>
                             (case performPivot_alt simplexTable' leavingRowIdx enteringIndex of
                                Inl (Thrown m) \<Rightarrow>
                                  Inr (s\<lparr>message := Some (''Error during automatic pivot: '' @ m)\<rparr>, pivots)
                              | Inl Undefined_value \<Rightarrow> Inl Undefined_value
                              | Inr newTable \<Rightarrow>
                                  if \<not> leavingRowIdx < length basicVariables' then Inl Undefined_value
                                  else
                                    let newBasics = basicVariables'[leavingRowIdx := variables s ! enteringIndex]
                                    in (case computeZjAndCjMinusZj_alt newTable newBasics (cj s) (variables s) of
                                          Inl (Thrown m) \<Rightarrow>
                                            Inr (s\<lparr>message := Some (''Error during automatic pivot: '' @ m)\<rparr>, pivots)
                                        | Inl Undefined_value \<Rightarrow> Inl Undefined_value
                                        | Inr computed \<Rightarrow>
                                            let s1 = s\<lparr>simplexTable := ctable computed,
                                                       basicVariables := newBasics,
                                                       iteration := iteration s + 1\<rparr>
                                            in if constWritable
                                               then solve_alt constWritable s1 (ctable computed) newBasics
                                                      (safety + 1) (pivots + 1)
                                               else Inr (s1\<lparr>message :=
                                                              Some (''Error during automatic pivot: '' @ ''TypeError'')\<rparr>,
                                                         pivots + 1))))))"
  by pat_completeness auto
termination
  by (relation "measure (\<lambda>(w, s, t, b, safety, pivots). 100 - safety)") auto

declare solve_alt.simps [simp del]

definition handleSolveToOptimal_alt :: "bool \<Rightarrow> state \<Rightarrow> failure + state \<times> nat" where
  "handleSolveToOptimal_alt constWritable s =
     solve_alt constWritable (s\<lparr>message := None\<rparr>) (simplexTable s) (basicVariables s) 0 0"

section \<open>Well-formed tableaus and the vocabulary of the theorems\<close>

text \<open>
  The invariant of the data model: the tableau has its constraint rows followed by the
  Zj row and the Cj-Zj row, every row has one entry per variable plus the right-hand
  side, the basis names one variable per constraint row, and Cj has one entry per
  variable.
\<close>

definition wellFormed :: "table \<Rightarrow> string list \<Rightarrow> real list \<Rightarrow> string list \<Rightarrow> bool" where
  "wellFormed table basicVars cjRow allVars =
     (2 \<le> length table \<and>
      list_all (\<lambda>r. length r = length allVars + 1) table \<and>
      length basicVars = length table - 2 \<and>
      length cjRow = length allVars)"

text \<open>
  Two predicates on a list of ratios, used to describe what the ratio loop returns when
  it starts with the minimum \<open>mr\<close>: no ratio is accepted, or the ratio \<open>r\<close> at index
  \<open>k\<close> is the last one accepted.
\<close>

definition noneAccepted :: "real option list \<Rightarrow> real option \<Rightarrow> bool" where
  "noneAccepted qs mr =
     (\<forall>j<length qs. \<forall>q. qs ! j = Some q \<longrightarrow> - eps10 \<le> q \<longrightarrow> (\<exists>m. mr = Some m \<and> m - eps10 \<le> q))"

definition acceptedAt :: "real option list \<Rightarrow> real option \<Rightarrow> nat \<Rightarrow> real \<Rightarrow> bool" where
  "acceptedAt qs mr k r =
     (k < length qs \<and> qs ! k = Some r \<and> - eps10 \<le> r \<and>
      (\<forall>m. mr = Some m \<longrightarrow> r < m - eps10) \<and>
      (\<forall>j<k. \<forall>q. qs ! j = Some q \<longrightarrow> - eps10 \<le> q \<longrightarrow> r < q) \<and>
      (\<forall>j<length qs. \<forall>q. qs ! j = Some q \<longrightarrow> - eps10 \<le> q \<longrightarrow> r - eps10 \<le> q))"

section \<open>Scenarios\<close>

text \<open>
  Scenario A: maximize \<open>3 x1 + 5 x2\<close> subject to \<open>x1 \<le> 4\<close>, \<open>2 x2 \<le> 12\<close>,
  \<open>3 x1 + 2 x2 \<le> 18\<close>; the tableau as \<^verbatim>\<open>createInitialSimplexTable\<close> builds it, with
  the placeholder rows.
\<close>

definition tableA :: table where
  "tableA = [[1, 0, 1, 0, 0, 4], [0, 2, 0, 1, 0, 12], [3, 2, 0, 0, 1, 18],
             [0, 0, 0, 0, 0, 0], [0, 0, 0, 0, 0, 0]]"

definition basicsA :: "string list" where
  "basicsA = [''s1'', ''s2'', ''s3'']"

definition cjA :: "real list" where
  "cjA = [3, 5, 0, 0, 0]"

definition varsA :: "string list" where
  "varsA = [''x1'', ''x2'', ''s1'', ''s2'', ''s3'']"





text \<open>A table with at least the two derived rows whose rows all have the length of row 0.\<close>

definition rectangular :: "table \<Rightarrow> bool" where
  "rectangular table = (2 \<le> length table \<and> list_all (\<lambda>r. length r = length (table ! 0)) table)"

text \<open>
  A session whose stored table has a zero in row 0, column 0, for the pivot error.
\<close>

definition stateE :: state where
  "stateE = \<lparr>simplexTable = [[0, 1, 1], [0, 0, 0], [0, 0, 0]],
             variables = [''x1'', ''s1''], cj = [1, 0], basicVariables = [''s1''],
             enteringVar = None, leavingVar = None, iteration = 1, message = None\<rparr>"

text \<open>
  Scenario A at its optimum (after the pivots on \<open>x2\<close> and \<open>x1\<close>), as the session
  stores it.
\<close>

definition stateOpt :: state where
  "stateOpt = \<lparr>simplexTable = [[0, 0, 1, 1/3, -1/3, 2], [0, 1, 0, 1/2, 0, 6],
                              [1, 0, 0, -1/3, 1/3, 2], [3, 5, 0, 3/2, 1, 36],
                              [0, 0, 0, -3/2, -1, 0]],
               variables = [''x1'', ''x2'', ''s1'', ''s2'', ''s3''], cj = [3, 5, 0, 0, 0],
               basicVariables = [''s1'', ''x2'', ''x1''],
               enteringVar = None, leavingVar = None, iteration = 3, message = None\<rparr>"

text \<open>
  A Phase 2 start whose basis names \<open>s1\<close> although the problem has no slack variable
  (the fallback of \<^verbatim>\<open>createPhase2Table\<close>).
\<close>

definition tableU :: table where
  "tableU = [[2, 1, 4], [1, 2, 3], [0, 0, 0], [0, 0, 0]]"

definition basicsU :: "string list" where
  "basicsU = [''s1'', ''x2'']"

definition cjU :: "real list" where
  "cjU = [- 1, - 1]"

definition varsU :: "string list" where
  "varsU = [''x1'', ''x2'']"


text \<open>
  Scenario B: minimize \<open>x1 + x2\<close> subject to \<open>2 x1 + x2 = 4\<close>, \<open>x1 + 2 x2 = 3\<close>. The
  route parameters the Phase 1 screen hands over at its optimum (\<open>x1 = 5/3\<close>,
  \<open>x2 = 2/3\<close>, both artificial variables out of the basis).
\<close>

definition paramsB :: phase2params where
  "paramsB = \<lparr>originalObjective = [1, 1],
              phase1Table = [[1, 0, 2/3, - 1/3, 5/3], [0, 1, - 1/3, 2/3, 2/3],
                             [0, 0, 0, 0, 0], [0, 0, 1, 1, 0]],
              phase1Variables = [''x1'', ''x2'', ''a1'', ''a2''],
              phase1BasicVariables = [''x1'', ''x2''],
              optType = ''Minimize''\<rparr>"

text \<open>
  A Phase 1 optimum with an artificial variable still in the basis at level 0 (a
  redundant second constraint).
\<close>

definition paramsD :: phase2params where
  "paramsD = \<lparr>originalObjective = [3],
              phase1Table = [[1, 1, 0, 2], [0, 0, 1, 0], [0, 0, 1, 0], [0, 0, 0, 0]],
              phase1Variables = [''x1'', ''s1'', ''a1''],
              phase1BasicVariables = [''x1'', ''a1''],
              optType = ''Maximize''\<rparr>"


text \<open>Scenario A as the single-phase session holds it after construction.\<close>

definition stateA :: state where
  "stateA = \<lparr>simplexTable = [[1, 0, 1, 0, 0, 4], [0, 2, 0, 1, 0, 12], [3, 2, 0, 0, 1, 18],
                            [0, 0, 0, 0, 0, 0], [3, 5, 0, 0, 0, 0]],
             variables = [''x1'', ''x2'', ''s1'', ''s2'', ''s3''], cj = [3, 5, 0, 0, 0],
             basicVariables = [''s1'', ''s2'', ''s3''],
             enteringVar = Some ''x2'', leavingVar = Some ''s2'', iteration = 1, message = None\<rparr>"

text \<open>
  Scenario D: maximize \<open>x1\<close> subject to \<open>x1 - x2 \<le> 1\<close>, as the single-phase session
  holds it after construction.
\<close>

definition stateD :: state where
  "stateD = \<lparr>simplexTable = [[1, - 1, 1, 1], [0, 0, 0, 0], [1, 0, 0, 0]],
             variables = [''x1'', ''x2'', ''s1''], cj = [1, 0, 0],
             basicVariables = [''s1''],
             enteringVar = Some ''x1'', leavingVar = Some ''s1'', iteration = 1, message = None\<rparr>"

text \<open>
  Scenario A after its first pivot (\<open>x2\<close> has entered in place of \<open>s2\<close>), before the
  derived rows are recomputed.
\<close>

definition tableA1 :: table where
  "tableA1 = [[1, 0, 1, 0, 0, 4], [0, 1, 0, 1/2, 0, 6], [3, 0, 0, - 1, 1, 6],
              [0, 0, 0, 0, 0, 0], [0, 0, 0, 0, 0, 0]]"

definition basicsA1 :: "string list" where
  "basicsA1 = [''s1'', ''x2'', ''s3'']"

text \<open>
  Scenario C as the Phase 1 screen constructs it: \<open>x1 + x2 \<le> 2\<close> and \<open>x1 + x2 \<ge> 5\<close>,
  with the slack \<open>s1\<close>, the surplus \<open>e1\<close> and the artificial \<open>a1\<close>.
\<close>

definition tableC0 :: table where
  "tableC0 = [[1, 1, 1, 0, 0, 2], [1, 1, 0, - 1, 1, 5],
              [0, 0, 0, 0, 0, 0], [0, 0, 0, 0, 0, 0]]"

definition basicsC0 :: "string list" where
  "basicsC0 = [''s1'', ''a1'']"

definition cjC0 :: "real list" where
  "cjC0 = [0, 0, 0, 0, 1]"

definition varsC0 :: "string list" where
  "varsC0 = [''x1'', ''x2'', ''s1'', ''e1'', ''a1'']"

section \<open>Properties of the primitives\<close>

lemma indexOf_Some_iff:
  "indexOf xs x = Some k \<longleftrightarrow> k < length xs \<and> xs ! k = x \<and> (\<forall>j<k. xs ! j \<noteq> x)"
proof (induction xs arbitrary: k)
  case Nil
  show ?case by simp
next
  case (Cons y ys)
  show ?case
  proof (cases "y = x")
    case True
    then show ?thesis by (cases k) auto
  next
    case False
    show ?thesis
    proof (cases k)
      case 0
      with False show ?thesis by auto
    next
      case (Suc k')
      have "(\<forall>j<Suc k'. (y # ys) ! j \<noteq> x) \<longleftrightarrow> (\<forall>j<k'. ys ! j \<noteq> x)"
        using False by (auto simp: less_Suc_eq_0_disj)
      with False Suc Cons.IH [of k'] show ?thesis by auto
    qed
  qed
qed

lemma indexOf_None_iff: "indexOf xs x = None \<longleftrightarrow> x \<notin> set xs"
  by (induction xs) auto

lemma fold_max_ge: "(a::real) \<le> fold max xs a \<and> (\<forall>x\<in>set xs. x \<le> fold max xs a)"
proof (induction xs arbitrary: a)
  case Nil
  show ?case by simp
next
  case (Cons y ys)
  from Cons.IH [of "max y a"] show ?case by auto
qed

lemma fold_max_mem: "fold max xs (a::real) \<in> insert a (set xs)"
proof (induction xs arbitrary: a)
  case Nil
  show ?case by simp
next
  case (Cons y ys)
  from Cons.IH [of "max y a"] show ?case by (auto simp: max_def split: if_splits)
qed

lemma Math_max_Some:
  assumes "Math_max xs = Some m"
  shows "m \<in> set xs \<and> (\<forall>x\<in>set xs. x \<le> m)"
proof (cases xs)
  case Nil
  with assms show ?thesis by simp
next
  case (Cons a list)
  with assms have m: "m = fold max list a" by simp
  have "m \<in> set xs" using fold_max_mem [of list a] m Cons by simp
  moreover have "\<forall>x\<in>set xs. x \<le> m" using fold_max_ge [of a list] m Cons by simp
  ultimately show ?thesis by simp
qed

lemma Math_max_None: "Math_max xs = None \<longleftrightarrow> xs = []"
  by (cases xs) auto

lemma fold_min_le: "fold min xs (a::real) \<le> a \<and> (\<forall>x\<in>set xs. fold min xs a \<le> x)"
proof (induction xs arbitrary: a)
  case Nil
  show ?case by simp
next
  case (Cons y ys)
  from Cons.IH [of "min y a"] show ?case by auto
qed

lemma fold_min_mem: "fold min xs (a::real) \<in> insert a (set xs)"
proof (induction xs arbitrary: a)
  case Nil
  show ?case by simp
next
  case (Cons y ys)
  from Cons.IH [of "min y a"] show ?case by (auto simp: min_def split: if_splits)
qed

lemma Math_min_Some:
  assumes "Math_min xs = Some m"
  shows "m \<in> set xs \<and> (\<forall>x\<in>set xs. m \<le> x)"
proof (cases xs)
  case Nil
  with assms show ?thesis by simp
next
  case (Cons a list)
  with assms have m: "m = fold min list a" by simp
  have "m \<in> set xs" using fold_min_mem [of list a] m Cons by simp
  moreover have "\<forall>x\<in>set xs. m \<le> x" using fold_min_le [of list a] m Cons by simp
  ultimately show ?thesis by simp
qed

lemma Math_min_None: "Math_min xs = None \<longleftrightarrow> xs = []"
  by (cases xs) auto

section \<open>The derived rows and the entering variable\<close>

lemma snap10_small: "\<bar>snap10 v\<bar> < eps10 \<Longrightarrow> snap10 v = 0"
  by (simp add: snap10_def split: if_splits)

lemma derivedRows_length:
  "length (fst (derivedRows table basicVars cjRow allVars)) = length (table ! 0) \<and>
   length (snd (derivedRows table basicVars cjRow allVars)) = length (table ! 0)"
  by (simp add: derivedRows_def Let_def)

lemma derivedRows_zj:
  assumes "col < length (table ! 0)" and "length table - 2 \<le> length basicVars"
  shows "fst (derivedRows table basicVars cjRow allVars) ! col =
         snap10 (\<Sum>i<length table - 2. cbValue cjRow allVars (basicVars ! i) * table ! i ! col)"
proof -
  have "sum_list (map (\<lambda>i. map (cbValue cjRow allVars) basicVars ! i * table ! i ! col) [0..<length table - 2])
        = (\<Sum>i<length table - 2. cbValue cjRow allVars (basicVars ! i) * table ! i ! col)"
    using assms(2) by (simp add: interv_sum_list_conv_sum_set_nat atLeast0LessThan)
  with assms(1) show ?thesis by (simp add: derivedRows_def Let_def)
qed

lemma derivedRows_cjzj:
  assumes "col < length (table ! 0)" and "length table - 2 \<le> length basicVars"
  shows "snd (derivedRows table basicVars cjRow allVars) ! col =
         (if col < length cjRow
          then snap10 (cjRow ! col - (\<Sum>i<length table - 2. cbValue cjRow allVars (basicVars ! i) * table ! i ! col))
          else 0)"
proof -
  have "sum_list (map (\<lambda>i. map (cbValue cjRow allVars) basicVars ! i * table ! i ! col) [0..<length table - 2])
        = (\<Sum>i<length table - 2. cbValue cjRow allVars (basicVars ! i) * table ! i ! col)"
    using assms(2) by (simp add: interv_sum_list_conv_sum_set_nat atLeast0LessThan)
  with assms(1) show ?thesis by (simp add: derivedRows_def Let_def snap10_def eps10_def)
qed

lemma compute_table:
  assumes "2 \<le> length table" and "readable table basicVars"
  shows "\<exists>c. computeZjAndCjMinusZj table basicVars cjRow allVars = Inr c \<and>
             ctable c = take (length table - 2) table @
                        [fst (derivedRows table basicVars cjRow allVars),
                         snd (derivedRows table basicVars cjRow allVars)]"
proof -
  obtain zj cz where d: "derivedRows table basicVars cjRow allVars = (zj, cz)"
    by (cases "derivedRows table basicVars cjRow allVars")
  show ?thesis
  proof (cases "Math_max (take (length allVars) cz)")
    case None
    with assms d show ?thesis by (simp add: computeZjAndCjMinusZj_def)
  next
    case (Some m)
    then have "m \<in> set (take (length allVars) cz)" using Math_max_Some by blast
    then obtain k where "indexOf (take (length allVars) cz) m = Some k"
      using indexOf_None_iff [of "take (length allVars) cz" m] by (cases "indexOf (take (length allVars) cz) m") auto
    with assms d Some show ?thesis by (simp add: computeZjAndCjMinusZj_def Let_def)
  qed
qed

lemma compute_Phase1_table:
  assumes "2 \<le> length table" and "readable table basicVars"
  shows "\<exists>c. computeZjAndCjMinusZj_Phase1 table basicVars cjRow allVars = Inr c \<and>
             ctable c = take (length table - 2) table @
                        [fst (derivedRows table basicVars cjRow allVars),
                         snd (derivedRows table basicVars cjRow allVars)]"
proof -
  obtain zj cz where d: "derivedRows table basicVars cjRow allVars = (zj, cz)"
    by (cases "derivedRows table basicVars cjRow allVars")
  show ?thesis
  proof (cases "Math_min (take (length allVars) cz)")
    case None
    with assms d show ?thesis by (simp add: computeZjAndCjMinusZj_Phase1_def)
  next
    case (Some m)
    then have "m \<in> set (take (length allVars) cz)" using Math_min_Some by blast
    then obtain k where "indexOf (take (length allVars) cz) m = Some k"
      using indexOf_None_iff [of "take (length allVars) cz" m] by (cases "indexOf (take (length allVars) cz) m") auto
    with assms d Some show ?thesis by (simp add: computeZjAndCjMinusZj_Phase1_def Let_def)
  qed
qed

lemma compute_cases:
  assumes "2 \<le> length table" and "readable table basicVars"
  shows "\<exists>c. computeZjAndCjMinusZj table basicVars cjRow allVars = Inr c \<and>
           ctable c = take (length table - 2) table @
                        [fst (derivedRows table basicVars cjRow allVars),
                         snd (derivedRows table basicVars cjRow allVars)] \<and>
           (let cand = take (length allVars) (snd (derivedRows table basicVars cjRow allVars)) in
            (centering c = None \<and> cleaving c = None \<and> (\<forall>v\<in>set cand. v \<le> eps10)) \<or>
            (\<exists>m k. Math_max cand = Some m \<and> eps10 < m \<and> indexOf cand m = Some k \<and>
                   centering c = Some (allVars ! k) \<and>
                   cleaving c = map_option (\<lambda>i. basicVars ! i)
                                  (leavingRow (take (length table - 2) table) k)))"
proof -
  obtain zj cz where d: "derivedRows table basicVars cjRow allVars = (zj, cz)"
    by (cases "derivedRows table basicVars cjRow allVars")
  have tk: "take (length table - 2) (take (length table - 2) table @ [zj, cz]) = take (length table - 2) table"
    by simp
  show ?thesis
  proof (cases "Math_max (take (length allVars) cz)")
    case None
    then have e: "take (length allVars) cz = []" by (simp add: Math_max_None)
    from assms d show ?thesis by (simp add: computeZjAndCjMinusZj_def Let_def e)
  next
    case (Some m)
    then have mem: "m \<in> set (take (length allVars) cz)" and ub: "\<forall>x\<in>set (take (length allVars) cz). x \<le> m"
      using Math_max_Some by blast+
    from mem obtain k where k: "indexOf (take (length allVars) cz) m = Some k"
      using indexOf_None_iff [of "take (length allVars) cz" m] by (cases "indexOf (take (length allVars) cz) m") auto
    show ?thesis
    proof (cases "m \<le> eps10")
      case True
      with ub have "\<forall>x\<in>set (take (length allVars) cz). x \<le> eps10" by fastforce
      with assms d Some True show ?thesis by (simp add: computeZjAndCjMinusZj_def Let_def)
    next
      case False
      with assms d Some k tk show ?thesis
        by (simp add: computeZjAndCjMinusZj_def Let_def del: take_append)
    qed
  qed
qed

lemma compute_Phase1_cases:
  assumes "2 \<le> length table" and "readable table basicVars"
  shows "\<exists>c. computeZjAndCjMinusZj_Phase1 table basicVars cjRow allVars = Inr c \<and>
           ctable c = take (length table - 2) table @
                        [fst (derivedRows table basicVars cjRow allVars),
                         snd (derivedRows table basicVars cjRow allVars)] \<and>
           (let cand = take (length allVars) (snd (derivedRows table basicVars cjRow allVars)) in
            (centering c = None \<and> cleaving c = None \<and> (\<forall>v\<in>set cand. - eps10 \<le> v)) \<or>
            (\<exists>m k. Math_min cand = Some m \<and> m < - eps10 \<and> indexOf cand m = Some k \<and>
                   centering c = Some (allVars ! k) \<and>
                   cleaving c = map_option (\<lambda>i. basicVars ! i)
                                  (leavingRow (take (length table - 2) table) k)))"
proof -
  obtain zj cz where d: "derivedRows table basicVars cjRow allVars = (zj, cz)"
    by (cases "derivedRows table basicVars cjRow allVars")
  have tk: "take (length table - 2) (take (length table - 2) table @ [zj, cz]) = take (length table - 2) table"
    by simp
  show ?thesis
  proof (cases "Math_min (take (length allVars) cz)")
    case None
    then have e: "take (length allVars) cz = []" by (simp add: Math_min_None)
    from assms d show ?thesis by (simp add: computeZjAndCjMinusZj_Phase1_def Let_def e)
  next
    case (Some m)
    then have mem: "m \<in> set (take (length allVars) cz)" and ub: "\<forall>x\<in>set (take (length allVars) cz). m \<le> x"
      using Math_min_Some by blast+
    from mem obtain k where k: "indexOf (take (length allVars) cz) m = Some k"
      using indexOf_None_iff [of "take (length allVars) cz" m] by (cases "indexOf (take (length allVars) cz) m") auto
    show ?thesis
    proof (cases "- eps10 \<le> m")
      case True
      with ub have "\<forall>x\<in>set (take (length allVars) cz). - eps10 \<le> x" by fastforce
      with assms d Some True show ?thesis by (simp add: computeZjAndCjMinusZj_Phase1_def Let_def)
    next
      case False
      with assms d Some k tk show ?thesis
        by (simp add: computeZjAndCjMinusZj_Phase1_def Let_def del: take_append)
    qed
  qed
qed

section \<open>The ratio loop\<close>

lemma noneAccepted_Nil: "noneAccepted [] mr"
  by (simp add: noneAccepted_def)

lemma noneAccepted_Cons:
  "noneAccepted (x # rest) mr \<longleftrightarrow>
     (\<forall>q. x = Some q \<longrightarrow> - eps10 \<le> q \<longrightarrow> (\<exists>m. mr = Some m \<and> m - eps10 \<le> q)) \<and> noneAccepted rest mr"
  by (simp add: noneAccepted_def All_less_Suc2)

lemma acceptedAt_0:
  "acceptedAt (x # rest) mr 0 r \<longleftrightarrow>
     x = Some r \<and> - eps10 \<le> r \<and> (\<forall>m. mr = Some m \<longrightarrow> r < m - eps10) \<and> noneAccepted rest (Some r)"
  by (auto simp add: acceptedAt_def noneAccepted_def All_less_Suc2 eps10_def)

lemma acceptedAt_Suc:
  "acceptedAt (x # rest) mr (Suc k) r \<longleftrightarrow>
     acceptedAt rest mr k r \<and> (\<forall>q. x = Some q \<longrightarrow> - eps10 \<le> q \<longrightarrow> r < q)"
  by (auto simp add: acceptedAt_def All_less_Suc2 eps10_def)

lemma acceptedAt_weaken:
  "acceptedAt qs (Some m') k r \<Longrightarrow> m' \<le> m \<Longrightarrow> acceptedAt qs (Some m) k r"
  by (auto simp add: acceptedAt_def)

lemma ratioLoop_spec:
  "(ratioLoop qs i mr li = li \<and> noneAccepted qs mr) \<or>
   (\<exists>k r. ratioLoop qs i mr li = Some (i + k) \<and> acceptedAt qs mr k r)"
proof (induction qs arbitrary: i mr li)
  case Nil
  show ?case by (simp add: noneAccepted_Nil)
next
  case (Cons x rest)
  show ?case
  proof (cases x)
    case None
    from Cons.IH [of "Suc i" mr li] show ?thesis
    proof
      assume "ratioLoop rest (Suc i) mr li = li \<and> noneAccepted rest mr"
      with None show ?thesis by (simp add: noneAccepted_Cons)
    next
      assume "\<exists>k r. ratioLoop rest (Suc i) mr li = Some (Suc i + k) \<and> acceptedAt rest mr k r"
      then obtain k r where "ratioLoop rest (Suc i) mr li = Some (Suc i + k)" "acceptedAt rest mr k r"
        by blast
      with None have "ratioLoop (x # rest) i mr li = Some (i + Suc k) \<and> acceptedAt (x # rest) mr (Suc k) r"
        by (simp add: acceptedAt_Suc)
      then show ?thesis by blast
    qed
  next
    case (Some q)
    show ?thesis
    proof (cases "- eps10 \<le> q \<and> (case mr of None \<Rightarrow> True | Some m \<Rightarrow> q < m - eps10)")
      case True
      then have acc: "- eps10 \<le> q" "\<forall>m. mr = Some m \<longrightarrow> q < m - eps10" by auto
      from True Some have step: "ratioLoop (x # rest) i mr li = ratioLoop rest (Suc i) (Some q) (Some i)"
        by simp
      from Cons.IH [of "Suc i" "Some q" "Some i"] show ?thesis
      proof
        assume "ratioLoop rest (Suc i) (Some q) (Some i) = Some i \<and> noneAccepted rest (Some q)"
        with step Some acc have "ratioLoop (x # rest) i mr li = Some (i + 0) \<and> acceptedAt (x # rest) mr 0 q"
          by (simp add: acceptedAt_0)
        then show ?thesis by blast
      next
        assume "\<exists>k r. ratioLoop rest (Suc i) (Some q) (Some i) = Some (Suc i + k) \<and> acceptedAt rest (Some q) k r"
        then obtain k r where kr: "ratioLoop rest (Suc i) (Some q) (Some i) = Some (Suc i + k)"
          "acceptedAt rest (Some q) k r" by blast
        then have rq: "r < q - eps10" by (simp add: acceptedAt_def)
        have e: "0 < eps10" by (simp add: eps10_def)
        have "acceptedAt rest mr k r"
        proof (cases mr)
          case None
          with kr(2) show ?thesis by (simp add: acceptedAt_def)
        next
          case (Some m)
          with acc have "q \<le> m" using e by simp
          with kr(2) Some show ?thesis using acceptedAt_weaken by blast
        qed
        with Some rq e have "acceptedAt (x # rest) mr (Suc k) r" by (simp add: acceptedAt_Suc)
        with step kr(1) have "ratioLoop (x # rest) i mr li = Some (i + Suc k) \<and> acceptedAt (x # rest) mr (Suc k) r"
          by simp
        then show ?thesis by blast
      qed
    next
      case False
      with Some have step: "ratioLoop (x # rest) i mr li = ratioLoop rest (Suc i) mr li"
        by auto
      from False have rej: "- eps10 \<le> q \<longrightarrow> (\<exists>m. mr = Some m \<and> m - eps10 \<le> q)"
        by (cases mr) auto
      from Cons.IH [of "Suc i" mr li] show ?thesis
      proof
        assume "ratioLoop rest (Suc i) mr li = li \<and> noneAccepted rest mr"
        with step Some rej show ?thesis by (simp add: noneAccepted_Cons)
      next
        assume "\<exists>k r. ratioLoop rest (Suc i) mr li = Some (Suc i + k) \<and> acceptedAt rest mr k r"
        then obtain k r where kr: "ratioLoop rest (Suc i) mr li = Some (Suc i + k)" "acceptedAt rest mr k r"
          by blast
        have "- eps10 \<le> q \<longrightarrow> r < q"
        proof
          assume "- eps10 \<le> q"
          with rej obtain m where "mr = Some m" "m - eps10 \<le> q" by blast
          with kr(2) show "r < q" by (simp add: acceptedAt_def)
        qed
        with kr(2) Some have "acceptedAt (x # rest) mr (Suc k) r" by (simp add: acceptedAt_Suc)
        with step kr(1) have "ratioLoop (x # rest) i mr li = Some (i + Suc k) \<and> acceptedAt (x # rest) mr (Suc k) r"
          by simp
        then show ?thesis by blast
      qed
    qed
  qed
qed

section \<open>Derived rows of a well-formed tableau\<close>

lemma wellFormed_readable:
  assumes "wellFormed table basicVars cjRow allVars"
  shows "readable table basicVars"
proof -
  from assms have len: "2 \<le> length table" and rows: "\<forall>r\<in>set table. length r = length allVars + 1"
    and b: "length basicVars = length table - 2"
    by (simp_all add: wellFormed_def list_all_iff)
  from len have "0 < length table" by linarith
  then have "table ! 0 \<in> set table" by (rule nth_mem)
  with rows have c: "length (table ! 0) = length allVars + 1" by blast
  have "\<forall>r\<in>set (take (length table - 2) table). length (table ! 0) \<le> length r"
    using rows c by (auto dest: in_set_takeD)
  with b show ?thesis by (simp add: readable_def Let_def list_all_iff)
qed

lemma wellFormed_cols:
  assumes "wellFormed table basicVars cjRow allVars"
  shows "length (table ! 0) = length allVars + 1"
proof -
  from assms have len: "2 \<le> length table" and rows: "\<forall>r\<in>set table. length r = length allVars + 1"
    by (simp_all add: wellFormed_def list_all_iff)
  from len have "0 < length table" by linarith
  then have "table ! 0 \<in> set table" by (rule nth_mem)
  with rows show ?thesis by blast
qed

lemma cbValue_listed:
  assumes "k < length allVars" and "k < length cjRow" and "allVars ! k = b"
    and "\<forall>j<k. allVars ! j \<noteq> b"
  shows "cbValue cjRow allVars b = cjRow ! k"
proof -
  from assms(1,3,4) have "indexOf allVars b = Some k"
    using indexOf_Some_iff [of allVars b k] by blast
  with assms(2) show ?thesis by (simp add: cbValue_def jsnth_def)
qed

lemma cbValue_unlisted: "b \<notin> set allVars \<Longrightarrow> cbValue cjRow allVars b = 0"
  by (simp add: cbValue_def indexOf_None_iff [THEN iffD2])

text \<open>
  C4. For a well-formed tableau, both versions of \<^verbatim>\<open>computeZjAndCjMinusZj\<close> return the
  constraint rows unchanged, followed by the two derived rows: the entry of the Zj row in
  a column is the sum over the constraint rows of the CB value of the row's basic
  variable times the row's entry, snapped; the entry of the Cj-Zj row in a variable column
  is Cj minus that sum, snapped, and 0 in the right-hand-side column; snapping means that
  no entry of a derived row has a magnitude below 1e-10 other than 0. The CB value of a
  basic variable is the Cj entry at the first position of its name in the variable list,
  and 0 for a name that is not in the list.
\<close>

theorem C4_derived_rows:
  assumes "wellFormed table basicVars cjRow allVars"
  shows "(\<forall>b. (b \<notin> set allVars \<longrightarrow> cbValue cjRow allVars b = 0) \<and>
              (\<forall>k<length allVars. allVars ! k = b \<and> (\<forall>j<k. allVars ! j \<noteq> b) \<longrightarrow>
                   cbValue cjRow allVars b = cjRow ! k)) \<and>
         (\<exists>c c1. computeZjAndCjMinusZj table basicVars cjRow allVars = Inr c \<and>
           computeZjAndCjMinusZj_Phase1 table basicVars cjRow allVars = Inr c1 \<and>
           ctable c1 = ctable c \<and>
           length (ctable c) = length table \<and>
           take (length table - 2) (ctable c) = take (length table - 2) table \<and>
           (\<forall>col\<le>length allVars.
              ctable c ! (length table - 2) ! col =
                snap10 (\<Sum>i<length table - 2. cbValue cjRow allVars (basicVars ! i) * table ! i ! col)) \<and>
           (\<forall>col<length allVars.
              ctable c ! (length table - 1) ! col =
                snap10 (cjRow ! col -
                  (\<Sum>i<length table - 2. cbValue cjRow allVars (basicVars ! i) * table ! i ! col))) \<and>
           ctable c ! (length table - 1) ! length allVars = 0 \<and>
           (\<forall>col\<le>length allVars.
              (\<bar>ctable c ! (length table - 2) ! col\<bar> < eps10 \<longrightarrow> ctable c ! (length table - 2) ! col = 0) \<and>
              (\<bar>ctable c ! (length table - 1) ! col\<bar> < eps10 \<longrightarrow> ctable c ! (length table - 1) ! col = 0)))"
proof -
  let ?m = "length table - 2"
  let ?zj = "fst (derivedRows table basicVars cjRow allVars)"
  let ?cz = "snd (derivedRows table basicVars cjRow allVars)"
  from assms have len: "2 \<le> length table" and b: "length basicVars = ?m"
    and cl: "length cjRow = length allVars"
    by (simp_all add: wellFormed_def)
  note rd = wellFormed_readable [OF assms]
  note cols = wellFormed_cols [OF assms]
  from compute_table [OF len rd] obtain c where
    c: "computeZjAndCjMinusZj table basicVars cjRow allVars = Inr c"
       "ctable c = take ?m table @ [?zj, ?cz]" by blast
  from compute_Phase1_table [OF len rd] obtain c1 where
    c1: "computeZjAndCjMinusZj_Phase1 table basicVars cjRow allVars = Inr c1"
        "ctable c1 = take ?m table @ [?zj, ?cz]" by blast
  have lt: "length (take ?m table) = ?m" using len by simp
  have zrow: "ctable c ! ?m = ?zj"
    using c(2) lt by (simp add: nth_append)
  have m1: "length table - 1 = Suc ?m" using len by simp
  have crow: "ctable c ! (length table - 1) = ?cz"
    using c(2) lt m1 by (simp add: nth_append)
  have zj: "\<forall>col\<le>length allVars. ?zj ! col =
              snap10 (\<Sum>i<?m. cbValue cjRow allVars (basicVars ! i) * table ! i ! col)"
    using derivedRows_zj [of _ table basicVars cjRow allVars] cols b by simp
  have cz: "\<forall>col<length allVars. ?cz ! col =
              snap10 (cjRow ! col - (\<Sum>i<?m. cbValue cjRow allVars (basicVars ! i) * table ! i ! col))"
    using derivedRows_cjzj [of _ table basicVars cjRow allVars] cols b cl by simp
  have rhs: "?cz ! length allVars = 0"
    using derivedRows_cjzj [of "length allVars" table basicVars cjRow allVars] cols b cl by simp
  have small: "\<forall>col\<le>length allVars. (\<bar>?zj ! col\<bar> < eps10 \<longrightarrow> ?zj ! col = 0) \<and> (\<bar>?cz ! col\<bar> < eps10 \<longrightarrow> ?cz ! col = 0)"
  proof (intro allI impI)
    fix col assume "col \<le> length allVars"
    then have cc: "col < length (table ! 0)" using cols by simp
    have z: "?zj ! col = snap10 (\<Sum>i<?m. cbValue cjRow allVars (basicVars ! i) * table ! i ! col)"
      using derivedRows_zj [OF cc, of basicVars cjRow allVars] b by simp
    have "?cz ! col = 0 \<or> (\<exists>v. ?cz ! col = snap10 v)"
    proof (cases "col < length cjRow")
      case True
      then show ?thesis using derivedRows_cjzj [OF cc, of basicVars cjRow allVars] b by auto
    next
      case False
      then show ?thesis using derivedRows_cjzj [OF cc, of basicVars cjRow allVars] b by simp
    qed
    then have "\<bar>?cz ! col\<bar> < eps10 \<longrightarrow> ?cz ! col = 0"
      using snap10_small by auto
    moreover have "\<bar>?zj ! col\<bar> < eps10 \<longrightarrow> ?zj ! col = 0"
      using z snap10_small by simp
    ultimately show "(\<bar>?zj ! col\<bar> < eps10 \<longrightarrow> ?zj ! col = 0) \<and> (\<bar>?cz ! col\<bar> < eps10 \<longrightarrow> ?cz ! col = 0)"
      by simp
  qed
  have cb: "\<forall>b. (b \<notin> set allVars \<longrightarrow> cbValue cjRow allVars b = 0) \<and>
              (\<forall>k<length allVars. allVars ! k = b \<and> (\<forall>j<k. allVars ! j \<noteq> b) \<longrightarrow>
                   cbValue cjRow allVars b = cjRow ! k)"
    using cbValue_listed [of _ allVars cjRow] cbValue_unlisted [of _ allVars cjRow] cl by simp
  have "length (ctable c) = length table" using c(2) len by simp
  moreover have "take ?m (ctable c) = take ?m table" using c(2) by simp
  ultimately have rows: "\<exists>c c1. computeZjAndCjMinusZj table basicVars cjRow allVars = Inr c \<and>
           computeZjAndCjMinusZj_Phase1 table basicVars cjRow allVars = Inr c1 \<and>
           ctable c1 = ctable c \<and>
           length (ctable c) = length table \<and>
           take (length table - 2) (ctable c) = take (length table - 2) table \<and>
           (\<forall>col\<le>length allVars.
              ctable c ! (length table - 2) ! col =
                snap10 (\<Sum>i<length table - 2. cbValue cjRow allVars (basicVars ! i) * table ! i ! col)) \<and>
           (\<forall>col<length allVars.
              ctable c ! (length table - 1) ! col =
                snap10 (cjRow ! col -
                  (\<Sum>i<length table - 2. cbValue cjRow allVars (basicVars ! i) * table ! i ! col))) \<and>
           ctable c ! (length table - 1) ! length allVars = 0 \<and>
           (\<forall>col\<le>length allVars.
              (\<bar>ctable c ! (length table - 2) ! col\<bar> < eps10 \<longrightarrow> ctable c ! (length table - 2) ! col = 0) \<and>
              (\<bar>ctable c ! (length table - 1) ! col\<bar> < eps10 \<longrightarrow> ctable c ! (length table - 1) ! col = 0))"
    using c c1 zrow crow zj cz rhs small by (intro exI [of _ c] exI [of _ c1]) simp
  from cb rows show ?thesis by (rule conjI)
qed

lemma evalA1:
  "computeZjAndCjMinusZj tableA1 basicsA1 cjA varsA =
     Inr \<lparr>ctable = [[1, 0, 1, 0, 0, 4], [0, 1, 0, 1/2, 0, 6], [3, 0, 0, - 1, 1, 6],
                    [0, 5, 0, 5/2, 0, 30], [3, 0, 0, - 5/2, 0, 0]],
          centering = Some ''x1'', cleaving = Some ''s3''\<rparr>"
  by code_simp

lemma evalA1_Phase1:
  "computeZjAndCjMinusZj_Phase1 tableA1 basicsA1 cjA varsA =
     Inr \<lparr>ctable = [[1, 0, 1, 0, 0, 4], [0, 1, 0, 1/2, 0, 6], [3, 0, 0, - 1, 1, 6],
                    [0, 5, 0, 5/2, 0, 30], [3, 0, 0, - 5/2, 0, 0]],
          centering = Some ''s2'', cleaving = Some ''x2''\<rparr>"
  by code_simp

theorem C4_derived_rows_witness:
  "wellFormed tableA1 basicsA1 cjA varsA \<and>
   cbValue cjA varsA (basicsA1 ! 1) = 5 \<and>
   (\<exists>c c1. computeZjAndCjMinusZj tableA1 basicsA1 cjA varsA = Inr c \<and>
        computeZjAndCjMinusZj_Phase1 tableA1 basicsA1 cjA varsA = Inr c1 \<and>
        ctable c1 = ctable c \<and>
        ctable c ! 3 = [0, 5, 0, 5/2, 0, 30] \<and>
        ctable c ! 4 = [3, 0, 0, - 5/2, 0, 0] \<and>
        ctable c ! 3 ! 5 = snap10 (\<Sum>i<3. cbValue cjA varsA (basicsA1 ! i) * tableA1 ! i ! 5))"
proof -
  have h: "wellFormed tableA1 basicsA1 cjA varsA" by code_simp
  have l: "length tableA1 = 5" "length varsA = 5" by (simp_all add: tableA1_def varsA_def)
  have x2: "(1::nat) < length varsA \<and> varsA ! 1 = basicsA1 ! 1 \<and> (\<forall>j<1. varsA ! j \<noteq> basicsA1 ! 1)"
    by (simp add: varsA_def basicsA1_def)
  have c5: "cjA ! 1 = 5" by (simp add: cjA_def)
  from C4_derived_rows [OF h] have
    cb: "\<forall>k<length varsA. varsA ! k = basicsA1 ! 1 \<and> (\<forall>j<k. varsA ! j \<noteq> basicsA1 ! 1) \<longrightarrow>
           cbValue cjA varsA (basicsA1 ! 1) = cjA ! k"
    by blast
  with x2 c5 have cbv: "cbValue cjA varsA (basicsA1 ! 1) = 5" by metis
  from C4_derived_rows [OF h] obtain c c1 where
    c: "computeZjAndCjMinusZj tableA1 basicsA1 cjA varsA = Inr c"
    and c1: "computeZjAndCjMinusZj_Phase1 tableA1 basicsA1 cjA varsA = Inr c1"
    and same: "ctable c1 = ctable c"
    and zj: "\<forall>col\<le>length varsA. ctable c ! (length tableA1 - 2) ! col =
                snap10 (\<Sum>i<length tableA1 - 2. cbValue cjA varsA (basicsA1 ! i) * tableA1 ! i ! col)"
    by blast
  from zj have z5: "ctable c ! 3 ! 5 = snap10 (\<Sum>i<3. cbValue cjA varsA (basicsA1 ! i) * tableA1 ! i ! 5)"
    by (simp add: l)
  from c evalA1 have r3: "ctable c ! 3 = [0, 5, 0, 5/2, 0, 30]"
    and r4: "ctable c ! 4 = [3, 0, 0, - 5/2, 0, 0]" by auto
  from h cbv c c1 same r3 r4 z5 show ?thesis by blast
qed

section \<open>The entering variable\<close>

lemma wellFormed_cz:
  assumes "wellFormed table basicVars cjRow allVars"
  shows "length (take (length allVars) (snd (derivedRows table basicVars cjRow allVars))) = length allVars"
  using derivedRows_length [of table basicVars cjRow allVars] wellFormed_cols [OF assms] by simp

text \<open>
  The choice of the entering variable, in terms of the Cj-Zj row that the function
  returns.
\<close>

lemma entering_rule:
  assumes "wellFormed table basicVars cjRow allVars"
  shows "(\<exists>c. computeZjAndCjMinusZj table basicVars cjRow allVars = Inr c \<and>
            (let cand = take (length allVars) (last (ctable c)) in
               length cand = length allVars \<and>
               (centering c = None \<longleftrightarrow> (\<forall>j<length allVars. cand ! j \<le> eps10)) \<and>
               (\<forall>name. centering c = Some name \<longrightarrow>
                  (\<exists>k<length allVars. name = allVars ! k \<and> k < length (table ! 0) - 1 \<and>
                     (\<forall>j<length allVars. cand ! j \<le> cand ! k) \<and>
                     (\<forall>j<k. cand ! j < cand ! k))))) \<and>
         (\<exists>c. computeZjAndCjMinusZj_Phase1 table basicVars cjRow allVars = Inr c \<and>
            (let cand = take (length allVars) (last (ctable c)) in
               length cand = length allVars \<and>
               (centering c = None \<longleftrightarrow> (\<forall>j<length allVars. - eps10 \<le> cand ! j)) \<and>
               (\<forall>name. centering c = Some name \<longrightarrow>
                  (\<exists>k<length allVars. name = allVars ! k \<and> k < length (table ! 0) - 1 \<and>
                     (\<forall>j<length allVars. cand ! k \<le> cand ! j) \<and>
                     (\<forall>j<k. cand ! k < cand ! j)))))"
proof -
  let ?cz = "snd (derivedRows table basicVars cjRow allVars)"
  let ?cand = "take (length allVars) ?cz"
  from assms have len: "2 \<le> length table" by (simp add: wellFormed_def)
  note rd = wellFormed_readable [OF assms]
  note cols = wellFormed_cols [OF assms]
  note lc = wellFormed_cz [OF assms]
  have setc: "\<And>P. (\<forall>v\<in>set ?cand. P v) \<longleftrightarrow> (\<forall>j<length allVars. P (?cand ! j))"
    using lc by (metis all_set_conv_all_nth)
  have "\<exists>c. computeZjAndCjMinusZj table basicVars cjRow allVars = Inr c \<and>
            (let cand = take (length allVars) (last (ctable c)) in
               length cand = length allVars \<and>
               (centering c = None \<longleftrightarrow> (\<forall>j<length allVars. cand ! j \<le> eps10)) \<and>
               (\<forall>name. centering c = Some name \<longrightarrow>
                  (\<exists>k<length allVars. name = allVars ! k \<and> k < length (table ! 0) - 1 \<and>
                     (\<forall>j<length allVars. cand ! j \<le> cand ! k) \<and>
                     (\<forall>j<k. cand ! j < cand ! k))))"
  proof -
    from compute_cases [OF len rd, of cjRow allVars] obtain c where
      c: "computeZjAndCjMinusZj table basicVars cjRow allVars = Inr c"
      and ct: "ctable c = take (length table - 2) table @
                 [fst (derivedRows table basicVars cjRow allVars), ?cz]"
      and cs: "(centering c = None \<and> cleaving c = None \<and> (\<forall>v\<in>set ?cand. v \<le> eps10)) \<or>
               (\<exists>m k. Math_max ?cand = Some m \<and> eps10 < m \<and> indexOf ?cand m = Some k \<and>
                   centering c = Some (allVars ! k) \<and>
                   cleaving c = map_option (\<lambda>i. basicVars ! i)
                                  (leavingRow (take (length table - 2) table) k))"
      by (auto simp: Let_def)
    have la: "last (ctable c) = ?cz" using ct by simp
    from cs have "(centering c = None \<longleftrightarrow> (\<forall>j<length allVars. ?cand ! j \<le> eps10)) \<and>
               (\<forall>name. centering c = Some name \<longrightarrow>
                  (\<exists>k<length allVars. name = allVars ! k \<and> k < length (table ! 0) - 1 \<and>
                     (\<forall>j<length allVars. ?cand ! j \<le> ?cand ! k) \<and>
                     (\<forall>j<k. ?cand ! j < ?cand ! k)))"
    proof
      assume "centering c = None \<and> cleaving c = None \<and> (\<forall>v\<in>set ?cand. v \<le> eps10)"
      then show ?thesis using setc [of "\<lambda>v. v \<le> eps10"] by simp
    next
      assume "\<exists>m k. Math_max ?cand = Some m \<and> eps10 < m \<and> indexOf ?cand m = Some k \<and>
                   centering c = Some (allVars ! k) \<and>
                   cleaving c = map_option (\<lambda>i. basicVars ! i)
                                  (leavingRow (take (length table - 2) table) k)"
      then obtain m k where mx: "Math_max ?cand = Some m" and big: "eps10 < m"
        and ix: "indexOf ?cand m = Some k" and en: "centering c = Some (allVars ! k)" by blast
      from ix have "k < length ?cand \<and> ?cand ! k = m \<and> (\<forall>j<k. ?cand ! j \<noteq> m)"
        using indexOf_Some_iff [of ?cand m k] by blast
      then have k: "k < length allVars" "?cand ! k = m" "\<forall>j<k. ?cand ! j \<noteq> m"
        using lc by metis+
      from mx have ub: "\<forall>j<length allVars. ?cand ! j \<le> m"
        using Math_max_Some [of ?cand m] setc [of "\<lambda>v. v \<le> m"] by simp
      have strict: "\<forall>j<k. ?cand ! j < ?cand ! k"
      proof (intro allI impI)
        fix j assume "j < k"
        with k ub have "?cand ! j \<noteq> m" "?cand ! j \<le> m" by simp_all
        with k(2) show "?cand ! j < ?cand ! k" by simp
      qed
      have notopt: "\<not> (\<forall>j<length allVars. ?cand ! j \<le> eps10)"
        using k big by (metis not_le)
      have "\<exists>k'<length allVars. allVars ! k = allVars ! k' \<and> k' < length (table ! 0) - 1 \<and>
                     (\<forall>j<length allVars. ?cand ! j \<le> ?cand ! k') \<and>
                     (\<forall>j<k'. ?cand ! j < ?cand ! k')"
        using k ub strict cols by (intro exI [of _ k]) simp
      with en notopt show ?thesis by simp
    qed
    with c la lc show ?thesis by (intro exI [of _ c]) (simp add: Let_def)
  qed
  moreover have "\<exists>c. computeZjAndCjMinusZj_Phase1 table basicVars cjRow allVars = Inr c \<and>
            (let cand = take (length allVars) (last (ctable c)) in
               length cand = length allVars \<and>
               (centering c = None \<longleftrightarrow> (\<forall>j<length allVars. - eps10 \<le> cand ! j)) \<and>
               (\<forall>name. centering c = Some name \<longrightarrow>
                  (\<exists>k<length allVars. name = allVars ! k \<and> k < length (table ! 0) - 1 \<and>
                     (\<forall>j<length allVars. cand ! k \<le> cand ! j) \<and>
                     (\<forall>j<k. cand ! k < cand ! j))))"
  proof -
    from compute_Phase1_cases [OF len rd, of cjRow allVars] obtain c where
      c: "computeZjAndCjMinusZj_Phase1 table basicVars cjRow allVars = Inr c"
      and ct: "ctable c = take (length table - 2) table @
                 [fst (derivedRows table basicVars cjRow allVars), ?cz]"
      and cs: "(centering c = None \<and> cleaving c = None \<and> (\<forall>v\<in>set ?cand. - eps10 \<le> v)) \<or>
               (\<exists>m k. Math_min ?cand = Some m \<and> m < - eps10 \<and> indexOf ?cand m = Some k \<and>
                   centering c = Some (allVars ! k) \<and>
                   cleaving c = map_option (\<lambda>i. basicVars ! i)
                                  (leavingRow (take (length table - 2) table) k))"
      by (auto simp: Let_def)
    have la: "last (ctable c) = ?cz" using ct by simp
    from cs have "(centering c = None \<longleftrightarrow> (\<forall>j<length allVars. - eps10 \<le> ?cand ! j)) \<and>
               (\<forall>name. centering c = Some name \<longrightarrow>
                  (\<exists>k<length allVars. name = allVars ! k \<and> k < length (table ! 0) - 1 \<and>
                     (\<forall>j<length allVars. ?cand ! k \<le> ?cand ! j) \<and>
                     (\<forall>j<k. ?cand ! k < ?cand ! j)))"
    proof
      assume "centering c = None \<and> cleaving c = None \<and> (\<forall>v\<in>set ?cand. - eps10 \<le> v)"
      then show ?thesis using setc [of "\<lambda>v. - eps10 \<le> v"] by simp
    next
      assume "\<exists>m k. Math_min ?cand = Some m \<and> m < - eps10 \<and> indexOf ?cand m = Some k \<and>
                   centering c = Some (allVars ! k) \<and>
                   cleaving c = map_option (\<lambda>i. basicVars ! i)
                                  (leavingRow (take (length table - 2) table) k)"
      then obtain m k where mx: "Math_min ?cand = Some m" and big: "m < - eps10"
        and ix: "indexOf ?cand m = Some k" and en: "centering c = Some (allVars ! k)" by blast
      from ix have "k < length ?cand \<and> ?cand ! k = m \<and> (\<forall>j<k. ?cand ! j \<noteq> m)"
        using indexOf_Some_iff [of ?cand m k] by blast
      then have k: "k < length allVars" "?cand ! k = m" "\<forall>j<k. ?cand ! j \<noteq> m"
        using lc by metis+
      from mx have ub: "\<forall>j<length allVars. m \<le> ?cand ! j"
        using Math_min_Some [of ?cand m] setc [of "\<lambda>v. m \<le> v"] by simp
      have strict: "\<forall>j<k. ?cand ! k < ?cand ! j"
      proof (intro allI impI)
        fix j assume "j < k"
        with k ub have "?cand ! j \<noteq> m" "m \<le> ?cand ! j" by simp_all
        with k(2) show "?cand ! k < ?cand ! j" by simp
      qed
      have notopt: "\<not> (\<forall>j<length allVars. - eps10 \<le> ?cand ! j)"
        using k big by (metis not_le)
      have "\<exists>k'<length allVars. allVars ! k = allVars ! k' \<and> k' < length (table ! 0) - 1 \<and>
                     (\<forall>j<length allVars. ?cand ! k' \<le> ?cand ! j) \<and>
                     (\<forall>j<k'. ?cand ! k' < ?cand ! j)"
        using k ub strict cols by (intro exI [of _ k]) simp
      with en notopt show ?thesis by simp
    qed
    with c la lc show ?thesis by (intro exI [of _ c]) (simp add: Let_def)
  qed
  ultimately show ?thesis by blast
qed

lemma evalA: "computeZjAndCjMinusZj tableA basicsA cjA varsA =
   Inr \<lparr>ctable = [[1, 0, 1, 0, 0, 4], [0, 2, 0, 1, 0, 12], [3, 2, 0, 0, 1, 18],
             [0, 0, 0, 0, 0, 0], [3, 5, 0, 0, 0, 0]], centering = Some ''x2'', cleaving = Some ''s2''\<rparr>"
  by code_simp

lemma compute_last:
  assumes "wellFormed table basicVars cjRow allVars"
  shows "(\<forall>c. computeZjAndCjMinusZj table basicVars cjRow allVars = Inr c \<longrightarrow>
            last (ctable c) = snd (derivedRows table basicVars cjRow allVars)) \<and>
         (\<forall>c. computeZjAndCjMinusZj_Phase1 table basicVars cjRow allVars = Inr c \<longrightarrow>
            last (ctable c) = snd (derivedRows table basicVars cjRow allVars))"
proof -
  from assms have len: "2 \<le> length table" by (simp add: wellFormed_def)
  note rd = wellFormed_readable [OF assms]
  from compute_table [OF len rd, of cjRow allVars] compute_Phase1_table [OF len rd, of cjRow allVars]
  show ?thesis by auto
qed

lemma candidates_formula:
  assumes "wellFormed table basicVars cjRow allVars" and "j < length allVars"
  shows "take (length allVars) (snd (derivedRows table basicVars cjRow allVars)) ! j =
           snap10 (cjRow ! j -
             (\<Sum>i<length table - 2. cbValue cjRow allVars (basicVars ! i) * table ! i ! j))"
proof -
  from assms(1) have b: "length basicVars = length table - 2"
    and cl: "length cjRow = length allVars" by (simp_all add: wellFormed_def)
  note cols = wellFormed_cols [OF assms(1)]
  have jc: "j < length (table ! 0)" using assms(2) cols by simp
  have mb: "length table - 2 \<le> length basicVars" using b by simp
  from derivedRows_cjzj [OF jc mb, of cjRow allVars] assms(2) cl show ?thesis by simp
qed

text \<open>
  C1. For a well-formed tableau, let \<open>cand\<close> be the variable columns of the Cj-Zj row
  that \<^verbatim>\<open>computeZjAndCjMinusZj\<close> fills: the entry of column \<open>j\<close> is Cj minus the sum over
  the constraint rows of CB times the row's entry, snapped. The single-phase and Phase 2
  version reports no entering variable exactly when every candidate is at most 1e-10;
  otherwise the entering variable is the variable of the first column \<open>k\<close> that holds
  the maximum (no column holds more, every earlier column holds strictly less). The
  Phase 1 version is symmetric with the minimum and the bound -1e-10. In both, \<open>k\<close> is
  a variable column, never the right-hand-side column.
\<close>

theorem C1_entering_rule:
  assumes "wellFormed table basicVars cjRow allVars"
  shows "(\<exists>c. computeZjAndCjMinusZj table basicVars cjRow allVars = Inr c \<and>
            (let cand = take (length allVars) (last (ctable c)) in
               length cand = length allVars \<and>
               (\<forall>j<length allVars. cand ! j =
                  snap10 (cjRow ! j -
                    (\<Sum>i<length table - 2. cbValue cjRow allVars (basicVars ! i) * table ! i ! j))) \<and>
               (centering c = None \<longleftrightarrow> (\<forall>j<length allVars. cand ! j \<le> eps10)) \<and>
               (\<forall>name. centering c = Some name \<longrightarrow>
                  (\<exists>k<length allVars. name = allVars ! k \<and> k < length (table ! 0) - 1 \<and>
                     (\<forall>j<length allVars. cand ! j \<le> cand ! k) \<and>
                     (\<forall>j<k. cand ! j < cand ! k))))) \<and>
         (\<exists>c. computeZjAndCjMinusZj_Phase1 table basicVars cjRow allVars = Inr c \<and>
            (let cand = take (length allVars) (last (ctable c)) in
               length cand = length allVars \<and>
               (\<forall>j<length allVars. cand ! j =
                  snap10 (cjRow ! j -
                    (\<Sum>i<length table - 2. cbValue cjRow allVars (basicVars ! i) * table ! i ! j))) \<and>
               (centering c = None \<longleftrightarrow> (\<forall>j<length allVars. - eps10 \<le> cand ! j)) \<and>
               (\<forall>name. centering c = Some name \<longrightarrow>
                  (\<exists>k<length allVars. name = allVars ! k \<and> k < length (table ! 0) - 1 \<and>
                     (\<forall>j<length allVars. cand ! k \<le> cand ! j) \<and>
                     (\<forall>j<k. cand ! k < cand ! j)))))"
proof -
  note la = compute_last [OF assms]
  note cf = candidates_formula [OF assms]
  from entering_rule [OF assms, THEN conjunct1] obtain c where
    cc: "computeZjAndCjMinusZj table basicVars cjRow allVars = Inr c \<and>
            (let cand = take (length allVars) (last (ctable c)) in
               length cand = length allVars \<and>
               (centering c = None \<longleftrightarrow> (\<forall>j<length allVars. cand ! j \<le> eps10)) \<and>
               (\<forall>name. centering c = Some name \<longrightarrow>
                  (\<exists>k<length allVars. name = allVars ! k \<and> k < length (table ! 0) - 1 \<and>
                     (\<forall>j<length allVars. cand ! j \<le> cand ! k) \<and>
                     (\<forall>j<k. cand ! j < cand ! k))))" ..
  note c = cc [THEN conjunct1]
  note pc = cc [THEN conjunct2, unfolded Let_def]
  from entering_rule [OF assms, THEN conjunct2] obtain c1 where
    cc1: "computeZjAndCjMinusZj_Phase1 table basicVars cjRow allVars = Inr c1 \<and>
            (let cand = take (length allVars) (last (ctable c1)) in
               length cand = length allVars \<and>
               (centering c1 = None \<longleftrightarrow> (\<forall>j<length allVars. - eps10 \<le> cand ! j)) \<and>
               (\<forall>name. centering c1 = Some name \<longrightarrow>
                  (\<exists>k<length allVars. name = allVars ! k \<and> k < length (table ! 0) - 1 \<and>
                     (\<forall>j<length allVars. cand ! k \<le> cand ! j) \<and>
                     (\<forall>j<k. cand ! k < cand ! j))))" ..
  note c1 = cc1 [THEN conjunct1]
  note pc1 = cc1 [THEN conjunct2, unfolded Let_def]
  have l: "last (ctable c) = snd (derivedRows table basicVars cjRow allVars)"
    using la c by blast
  have l1: "last (ctable c1) = snd (derivedRows table basicVars cjRow allVars)"
    using la c1 by blast
  have f: "\<forall>j<length allVars. take (length allVars) (last (ctable c)) ! j =
                  snap10 (cjRow ! j -
                    (\<Sum>i<length table - 2. cbValue cjRow allVars (basicVars ! i) * table ! i ! j))"
    unfolding l by (intro allI impI) (rule cf)
  have f1: "\<forall>j<length allVars. take (length allVars) (last (ctable c1)) ! j =
                  snap10 (cjRow ! j -
                    (\<Sum>i<length table - 2. cbValue cjRow allVars (basicVars ! i) * table ! i ! j))"
    unfolding l1 by (intro allI impI) (rule cf)
  show ?thesis
    unfolding Let_def
  proof (intro conjI)
    show "\<exists>c. computeZjAndCjMinusZj table basicVars cjRow allVars = Inr c \<and>
        length (take (length allVars) (last (ctable c))) = length allVars \<and>
        (\<forall>j<length allVars.
            take (length allVars) (last (ctable c)) ! j =
            snap10 (cjRow ! j -
              (\<Sum>i<length table - 2. cbValue cjRow allVars (basicVars ! i) * table ! i ! j))) \<and>
        (centering c = None \<longleftrightarrow>
           (\<forall>j<length allVars. take (length allVars) (last (ctable c)) ! j \<le> eps10)) \<and>
        (\<forall>name. centering c = Some name \<longrightarrow>
           (\<exists>k<length allVars. name = allVars ! k \<and> k < length (table ! 0) - 1 \<and>
              (\<forall>j<length allVars. take (length allVars) (last (ctable c)) ! j
                   \<le> take (length allVars) (last (ctable c)) ! k) \<and>
              (\<forall>j<k. take (length allVars) (last (ctable c)) ! j
                   < take (length allVars) (last (ctable c)) ! k)))"
      by (intro exI [of _ c] conjI)
        (rule c, rule pc [THEN conjunct1], rule f, rule pc [THEN conjunct2, THEN conjunct1],
         rule pc [THEN conjunct2, THEN conjunct2])
    show "\<exists>c. computeZjAndCjMinusZj_Phase1 table basicVars cjRow allVars = Inr c \<and>
        length (take (length allVars) (last (ctable c))) = length allVars \<and>
        (\<forall>j<length allVars.
            take (length allVars) (last (ctable c)) ! j =
            snap10 (cjRow ! j -
              (\<Sum>i<length table - 2. cbValue cjRow allVars (basicVars ! i) * table ! i ! j))) \<and>
        (centering c = None \<longleftrightarrow>
           (\<forall>j<length allVars. - eps10 \<le> take (length allVars) (last (ctable c)) ! j)) \<and>
        (\<forall>name. centering c = Some name \<longrightarrow>
           (\<exists>k<length allVars. name = allVars ! k \<and> k < length (table ! 0) - 1 \<and>
              (\<forall>j<length allVars. take (length allVars) (last (ctable c)) ! k
                   \<le> take (length allVars) (last (ctable c)) ! j) \<and>
              (\<forall>j<k. take (length allVars) (last (ctable c)) ! k
                   < take (length allVars) (last (ctable c)) ! j)))"
      by (intro exI [of _ c1] conjI)
        (rule c1, rule pc1 [THEN conjunct1], rule f1, rule pc1 [THEN conjunct2, THEN conjunct1],
         rule pc1 [THEN conjunct2, THEN conjunct2])
  qed
qed

lemma evalC0:
  "computeZjAndCjMinusZj_Phase1 tableC0 basicsC0 cjC0 varsC0 =
     Inr \<lparr>ctable = [[1, 1, 1, 0, 0, 2], [1, 1, 0, - 1, 1, 5],
                    [1, 1, 0, - 1, 1, 5], [- 1, - 1, 0, 1, 0, 0]],
          centering = Some ''x1'', cleaving = Some ''s1''\<rparr>"
  by code_simp

theorem C1_entering_rule_witness:
  "wellFormed tableA basicsA cjA varsA \<and> wellFormed tableC0 basicsC0 cjC0 varsC0 \<and>
   (\<exists>c. computeZjAndCjMinusZj tableA basicsA cjA varsA = Inr c \<and> centering c = Some ''x2'' \<and>
      take (length varsA) (last (ctable c)) = [3, 5, 0, 0, 0] \<and>
      (\<exists>k<length varsA. ''x2'' = varsA ! k \<and> k < length (tableA ! 0) - 1 \<and>
         (\<forall>j<length varsA. take (length varsA) (last (ctable c)) ! j
              \<le> take (length varsA) (last (ctable c)) ! k))) \<and>
   (\<exists>c. computeZjAndCjMinusZj_Phase1 tableC0 basicsC0 cjC0 varsC0 = Inr c \<and>
      centering c = Some ''x1'' \<and>
      take (length varsC0) (last (ctable c)) = [- 1, - 1, 0, 1, 0] \<and>
      (\<exists>k<length varsC0. ''x1'' = varsC0 ! k \<and> k < length (tableC0 ! 0) - 1 \<and>
         (\<forall>j<length varsC0. take (length varsC0) (last (ctable c)) ! k
              \<le> take (length varsC0) (last (ctable c)) ! j) \<and>
         (\<forall>j<k. take (length varsC0) (last (ctable c)) ! k
              < take (length varsC0) (last (ctable c)) ! j)))"
proof -
  have h: "wellFormed tableA basicsA cjA varsA" by code_simp
  have h0: "wellFormed tableC0 basicsC0 cjC0 varsC0" by code_simp
  from C1_entering_rule [OF h]
  have "\<exists>c. computeZjAndCjMinusZj tableA basicsA cjA varsA = Inr c \<and>
            (\<forall>name. centering c = Some name \<longrightarrow>
                  (\<exists>k<length varsA. name = varsA ! k \<and> k < length (tableA ! 0) - 1 \<and>
                     (\<forall>j<length varsA. take (length varsA) (last (ctable c)) ! j
                          \<le> take (length varsA) (last (ctable c)) ! k) \<and>
                     (\<forall>j<k. take (length varsA) (last (ctable c)) ! j
                          < take (length varsA) (last (ctable c)) ! k)))"
    unfolding Let_def by blast
  then obtain c where c: "computeZjAndCjMinusZj tableA basicsA cjA varsA = Inr c"
    and p: "\<forall>name. centering c = Some name \<longrightarrow>
                  (\<exists>k<length varsA. name = varsA ! k \<and> k < length (tableA ! 0) - 1 \<and>
                     (\<forall>j<length varsA. take (length varsA) (last (ctable c)) ! j
                          \<le> take (length varsA) (last (ctable c)) ! k) \<and>
                     (\<forall>j<k. take (length varsA) (last (ctable c)) ! j
                          < take (length varsA) (last (ctable c)) ! k))"
    by blast
  from c evalA have e: "centering c = Some ''x2''"
    and r: "take (length varsA) (last (ctable c)) = [3, 5, 0, 0, 0]"
    by (auto simp add: varsA_def)
  from p e have k: "\<exists>k<length varsA. ''x2'' = varsA ! k \<and> k < length (tableA ! 0) - 1 \<and>
         (\<forall>j<length varsA. take (length varsA) (last (ctable c)) ! j
              \<le> take (length varsA) (last (ctable c)) ! k)"
    by blast
  from C1_entering_rule [OF h0]
  have "\<exists>c. computeZjAndCjMinusZj_Phase1 tableC0 basicsC0 cjC0 varsC0 = Inr c \<and>
            (\<forall>name. centering c = Some name \<longrightarrow>
                  (\<exists>k<length varsC0. name = varsC0 ! k \<and> k < length (tableC0 ! 0) - 1 \<and>
                     (\<forall>j<length varsC0. take (length varsC0) (last (ctable c)) ! k
                          \<le> take (length varsC0) (last (ctable c)) ! j) \<and>
                     (\<forall>j<k. take (length varsC0) (last (ctable c)) ! k
                          < take (length varsC0) (last (ctable c)) ! j)))"
    unfolding Let_def by blast
  then obtain c0 where c0: "computeZjAndCjMinusZj_Phase1 tableC0 basicsC0 cjC0 varsC0 = Inr c0"
    and p0: "\<forall>name. centering c0 = Some name \<longrightarrow>
                  (\<exists>k<length varsC0. name = varsC0 ! k \<and> k < length (tableC0 ! 0) - 1 \<and>
                     (\<forall>j<length varsC0. take (length varsC0) (last (ctable c0)) ! k
                          \<le> take (length varsC0) (last (ctable c0)) ! j) \<and>
                     (\<forall>j<k. take (length varsC0) (last (ctable c0)) ! k
                          < take (length varsC0) (last (ctable c0)) ! j))"
    by blast
  from c0 evalC0 have e0: "centering c0 = Some ''x1''"
    and r0: "take (length varsC0) (last (ctable c0)) = [- 1, - 1, 0, 1, 0]"
    by (auto simp add: varsC0_def)
  from p0 e0 have k0: "\<exists>k<length varsC0. ''x1'' = varsC0 ! k \<and> k < length (tableC0 ! 0) - 1 \<and>
         (\<forall>j<length varsC0. take (length varsC0) (last (ctable c0)) ! k
              \<le> take (length varsC0) (last (ctable c0)) ! j) \<and>
         (\<forall>j<k. take (length varsC0) (last (ctable c0)) ! k
              < take (length varsC0) (last (ctable c0)) ! j)"
    by blast
  from h h0 c e r k c0 e0 r0 k0 show ?thesis by blast
qed

section \<open>The leaving variable\<close>









section \<open>The pivot\<close>

lemma rectangular_row:
  "rectangular table \<Longrightarrow> i < length table \<Longrightarrow> length (table ! i) = length (table ! 0)"
  by (simp add: rectangular_def list_all_length)

lemma wellFormed_rectangular:
  assumes "wellFormed table basicVars cjRow allVars"
  shows "rectangular table"
  using assms wellFormed_cols [OF assms] by (simp add: wellFormed_def rectangular_def)

lemma rectangular_pivotReadable:
  assumes "rectangular table" and "r < length table" and "c < length (table ! 0)"
  shows "pivotReadable table r c"
proof -
  have a: "length (table ! 0) \<le> length (table ! r)"
    using rectangular_row [OF assms(1,2)] by linarith
  have b: "\<forall>i\<in>set [0..<length table - 2]. i = r \<or>
             (case jsnth (table ! i) c of None \<Rightarrow> False
              | Some factor \<Rightarrow> \<bar>factor\<bar> < eps12 \<or> length (table ! 0) \<le> length (table ! i))"
  proof
    fix i assume "i \<in> set [0..<length table - 2]"
    then have "i < length table" by simp
    then have "length (table ! i) = length (table ! 0)" by (rule rectangular_row [OF assms(1)])
    with assms(3) show "i = r \<or>
             (case jsnth (table ! i) c of None \<Rightarrow> False
              | Some factor \<Rightarrow> \<bar>factor\<bar> < eps12 \<or> length (table ! 0) \<le> length (table ! i))"
      by (simp add: jsnth_def)
  qed
  from a b show ?thesis
    unfolding pivotReadable_def Let_def list_all_iff by blast
qed

lemma length_normalizeRow: "length (normalizeRow cols pv row) = length row"
  by (simp add: normalizeRow_def)

lemma length_eliminateRow:
  "cols \<le> length row \<Longrightarrow> length (eliminateRow cols c pivotRow row) = length row"
  by (simp add: eliminateRow_def Let_def)

lemma snap12_one: "snap12 1 = 1"
  by (simp add: snap12_def eps12_def)

lemma normalizeRow_pivot:
  assumes "c < cols" and "cols \<le> length row" and "row ! c \<noteq> 0"
  shows "normalizeRow cols (row ! c) row ! c = 1"
  using assms by (simp add: normalizeRow_def nth_append snap12_one)

lemma eliminateRow_pivot:
  assumes "c < cols" and "cols \<le> length row" and "pivotRow ! c = 1"
  shows "\<bar>eliminateRow cols c pivotRow row ! c\<bar> < eps12"
  using assms by (simp add: eliminateRow_def Let_def nth_append snap12_def eps12_def)

lemma performPivot_result:
  assumes "rectangular table" and "r < length table" and "c < length (table ! 0)"
    and "\<not> \<bar>table ! r ! c\<bar> < eps12"
  shows "performPivot table r c =
           Inr (map (\<lambda>i. if i = r then normalizeRow (length (table ! 0)) (table ! r ! c) (table ! r)
                          else if i < length table - 2
                          then eliminateRow (length (table ! 0)) c
                                 (normalizeRow (length (table ! 0)) (table ! r ! c) (table ! r)) (table ! i)
                          else table ! i)
                  [0..<length table])"
  using assms rectangular_pivotReadable [OF assms(1-3)] rectangular_row [OF assms(1,2)]
  by (simp add: performPivot_def Let_def jsnth_def)

lemma performPivot_rectangular:
  assumes "rectangular table" and "r < length table" and "c < length (table ! 0)"
    and "\<not> \<bar>table ! r ! c\<bar> < eps12"
  shows "\<exists>t'. performPivot table r c = Inr t' \<and> rectangular t' \<and> length t' = length table \<and>
              length (t' ! 0) = length (table ! 0)"
proof -
  let ?cols = "length (table ! 0)"
  define p where "p = normalizeRow ?cols (table ! r ! c) (table ! r)"
  define f where "f = (\<lambda>i. if i = r then p
                 else if i < length table - 2 then eliminateRow ?cols c p (table ! i)
                 else table ! i)"
  define t' where "t' = map f [0..<length table]"
  have res: "performPivot table r c = Inr t'"
    unfolding t'_def f_def p_def by (rule performPivot_result [OF assms])
  have rl: "\<And>i. i < length table \<Longrightarrow> length (table ! i) = ?cols"
    by (rule rectangular_row [OF assms(1)])
  have fl: "\<And>i. i < length table \<Longrightarrow> length (f i) = ?cols"
    using rl assms(2) by (simp add: f_def p_def length_normalizeRow length_eliminateRow)
  have lt: "length t' = length table" by (simp add: t'_def)
  have tl: "\<And>i. i < length table \<Longrightarrow> length (t' ! i) = ?cols"
    using fl by (simp add: t'_def)
  from assms(1) have l2: "2 \<le> length table" by (simp add: rectangular_def)
  then have "0 < length table" by linarith
  then have z: "length (t' ! 0) = ?cols" by (rule tl)
  have "rectangular t'"
    unfolding rectangular_def list_all_length using l2 lt tl z by simp
  with res lt z show ?thesis by blast
qed

text \<open>
  C3. For a rectangular table, a pivot position in a constraint row and a column of the
  table, and a pivot element of absolute value at least 1e-12, \<^verbatim>\<open>performPivot\<close> returns a
  table whose pivot column is an identity column over the constraint rows within 1e-9:
  the entry in the pivot row is 1 (exactly, in exact arithmetic) and the entry in every
  other constraint row is below 1e-12 in magnitude.
\<close>

theorem C3_identity_column:
  assumes "rectangular table" and "r < length table - 2" and "c < length (table ! 0)"
    and "eps12 \<le> \<bar>table ! r ! c\<bar>"
  shows "\<exists>t'. performPivot table r c = Inr t' \<and>
              \<bar>t' ! r ! c - 1\<bar> \<le> eps9 \<and>
              (\<forall>i<length table - 2. i \<noteq> r \<longrightarrow> \<bar>t' ! i ! c\<bar> \<le> eps9) \<and>
              t' ! r ! c = 1 \<and>
              (\<forall>i<length table - 2. i \<noteq> r \<longrightarrow> \<bar>t' ! i ! c\<bar> < eps12)"
proof -
  let ?cols = "length (table ! 0)"
  define p where "p = normalizeRow ?cols (table ! r ! c) (table ! r)"
  define f where "f = (\<lambda>i. if i = r then p
                 else if i < length table - 2 then eliminateRow ?cols c p (table ! i)
                 else table ! i)"
  define t' where "t' = map f [0..<length table]"
  from assms(2) have r: "r < length table" by simp
  from assms(4) have nz: "\<not> \<bar>table ! r ! c\<bar> < eps12" by simp
  have "0 < eps12" by (simp add: eps12_def)
  with assms(4) have nz0: "table ! r ! c \<noteq> 0" by auto
  have res: "performPivot table r c = Inr t'"
    unfolding t'_def f_def p_def by (rule performPivot_result [OF assms(1) r assms(3) nz])
  have rl: "\<And>i. i < length table \<Longrightarrow> length (table ! i) = ?cols"
    by (rule rectangular_row [OF assms(1)])
  have "?cols \<le> length (table ! r)" using rl [OF r] by simp
  from normalizeRow_pivot [OF assms(3) this nz0] have p1: "p ! c = 1"
    by (simp add: p_def)
  have tn: "\<And>i. i < length table \<Longrightarrow> t' ! i = f i" by (simp add: t'_def)
  have one: "t' ! r ! c = 1" using tn [OF r] p1 by (simp add: f_def)
  have others: "\<forall>i<length table - 2. i \<noteq> r \<longrightarrow> \<bar>t' ! i ! c\<bar> < eps12"
  proof (intro allI impI)
    fix i assume i: "i < length table - 2" "i \<noteq> r"
    then have il: "i < length table" by simp
    have "?cols \<le> length (table ! i)" using rl [OF il] by simp
    from eliminateRow_pivot [OF assms(3) this p1]
    have "\<bar>eliminateRow ?cols c p (table ! i) ! c\<bar> < eps12" .
    moreover have "t' ! i = eliminateRow ?cols c p (table ! i)"
      using tn [OF il] i by (simp add: f_def)
    ultimately show "\<bar>t' ! i ! c\<bar> < eps12" by simp
  qed
  have e: "eps12 < eps9" by (simp add: eps12_def eps9_def)
  have o9: "\<forall>i<length table - 2. i \<noteq> r \<longrightarrow> \<bar>t' ! i ! c\<bar> \<le> eps9"
  proof (intro allI impI)
    fix i assume "i < length table - 2" "i \<noteq> r"
    with others have "\<bar>t' ! i ! c\<bar> < eps12" by blast
    with e show "\<bar>t' ! i ! c\<bar> \<le> eps9" by linarith
  qed
  have n9: "\<bar>t' ! r ! c - 1\<bar> \<le> eps9" using one by (simp add: eps9_def)
  from res n9 o9 one others show ?thesis by blast
qed

theorem C3_identity_column_witness:
  "rectangular tableA \<and> (1::nat) < length tableA - 2 \<and> (1::nat) < length (tableA ! 0) \<and>
   eps12 \<le> \<bar>tableA ! 1 ! 1\<bar> \<and>
   (\<exists>t'. performPivot tableA 1 1 = Inr t' \<and> \<bar>t' ! 1 ! 1 - 1\<bar> \<le> eps9 \<and> t' ! 1 ! 1 = 1 \<and>
        \<bar>t' ! 2 ! 1\<bar> \<le> eps9)"
proof -
  have h1: "rectangular tableA" by code_simp
  have h2: "(1::nat) < length tableA - 2" by code_simp
  have h3: "(1::nat) < length (tableA ! 0)" by code_simp
  have h4: "eps12 \<le> \<bar>tableA ! 1 ! 1\<bar>" by code_simp
  have h5: "(2::nat) < length tableA - 2" "(2::nat) \<noteq> 1" by code_simp+
  from C3_identity_column [OF h1 h2 h3 h4] h5 have
    "\<exists>t'. performPivot tableA 1 1 = Inr t' \<and> \<bar>t' ! 1 ! 1 - 1\<bar> \<le> eps9 \<and> t' ! 1 ! 1 = 1 \<and>
        \<bar>t' ! 2 ! 1\<bar> \<le> eps9" by blast
  with h1 h2 h3 h4 show ?thesis by blast
qed

lemma performPivot_error_iff:
  assumes "r < length table" and "c < length (table ! r)"
  shows "(\<exists>m. performPivot table r c = Inl (Thrown m)) \<longleftrightarrow> \<bar>table ! r ! c\<bar> < eps12"
  using assms by (simp add: performPivot_def Let_def jsnth_def)

lemma performPivot_error:
  assumes "r < length table" and "c < length (table ! r)" and "\<bar>table ! r ! c\<bar> < eps12"
  shows "performPivot table r c = Inl (Thrown ''Pivot value is too close to zero.'')"
  using assms by (simp add: performPivot_def Let_def jsnth_def)

text \<open>
  C5. For a pivot position inside the table, \<^verbatim>\<open>performPivot\<close> raises an error exactly
  when the absolute value of the pivot element is below 1e-12, and the error is the pivot
  error. When it is raised inside the \<^verbatim>\<open>try\<close> block of a step, the step ends in the
  state it had before the pivot (table, basis, Cj, variables, entering and leaving
  variable and iteration counter unchanged) with the message
  \<open>Error during pivot: Pivot value is too close to zero.\<close>; \<^verbatim>\<open>handleNextIteration\<close> runs
  that block on the state with the message cleared.
\<close>

theorem C5_pivot_error:
  assumes "r < length (simplexTable s)" and "c < length (simplexTable s ! r)"
  shows "((\<exists>m. performPivot (simplexTable s) r c = Inl (Thrown m)) \<longleftrightarrow>
            \<bar>simplexTable s ! r ! c\<bar> < eps12) \<and>
         (\<bar>simplexTable s ! r ! c\<bar> < eps12 \<longrightarrow>
            performPivot (simplexTable s) r c = Inl (Thrown ''Pivot value is too close to zero.'') \<and>
            pivotStep s r c =
              Inr (s\<lparr>message := Some ''Error during pivot: Pivot value is too close to zero.''\<rparr>))"
proof -
  have "\<bar>simplexTable s ! r ! c\<bar> < eps12 \<longrightarrow>
            performPivot (simplexTable s) r c = Inl (Thrown ''Pivot value is too close to zero.'') \<and>
            pivotStep s r c =
              Inr (s\<lparr>message := Some ''Error during pivot: Pivot value is too close to zero.''\<rparr>)"
  proof
    assume "\<bar>simplexTable s ! r ! c\<bar> < eps12"
    from performPivot_error [OF assms this]
    have e: "performPivot (simplexTable s) r c = Inl (Thrown ''Pivot value is too close to zero.'')" .
    then have "pivotStep s r c =
              Inr (s\<lparr>message := Some ''Error during pivot: Pivot value is too close to zero.''\<rparr>)"
      by (simp add: pivotStep_def)
    with e show "performPivot (simplexTable s) r c = Inl (Thrown ''Pivot value is too close to zero.'') \<and>
            pivotStep s r c =
              Inr (s\<lparr>message := Some ''Error during pivot: Pivot value is too close to zero.''\<rparr>)"
      by simp
  qed
  with performPivot_error_iff [OF assms] show ?thesis by blast
qed

theorem C5_pivot_error_witness:
  "(0::nat) < length (simplexTable stateE) \<and> (0::nat) < length (simplexTable stateE ! 0) \<and>
   \<bar>simplexTable stateE ! 0 ! 0\<bar> < eps12 \<and>
   performPivot (simplexTable stateE) 0 0 = Inl (Thrown ''Pivot value is too close to zero.'') \<and>
   pivotStep stateE 0 0 =
     Inr (stateE\<lparr>message := Some ''Error during pivot: Pivot value is too close to zero.''\<rparr>)"
proof -
  have h1: "(0::nat) < length (simplexTable stateE)" by (simp add: stateE_def)
  have h2: "(0::nat) < length (simplexTable stateE ! 0)" by (simp add: stateE_def)
  have h3: "\<bar>simplexTable stateE ! 0 ! 0\<bar> < eps12" by (simp add: stateE_def eps12_def)
  from C5_pivot_error [OF h1 h2] h1 h2 h3 show ?thesis by blast
qed

section \<open>The step at an optimal tableau\<close>

lemma compute_Inr_readable:
  assumes "2 \<le> length table" and "computeZjAndCjMinusZj table basicVars cjRow allVars = Inr c"
  shows "readable table basicVars"
  using assms by (auto simp add: computeZjAndCjMinusZj_def split: if_splits)

lemma compute_optimal_row:
  assumes "2 \<le> length table" and "computeZjAndCjMinusZj table basicVars cjRow allVars = Inr c"
  shows "centering c = None \<longleftrightarrow> (\<forall>v\<in>set (take (length allVars) (last (ctable c))). v \<le> eps10)"
proof -
  let ?cz = "snd (derivedRows table basicVars cjRow allVars)"
  let ?cand = "take (length allVars) ?cz"
  note rd = compute_Inr_readable [OF assms]
  from compute_cases [OF assms(1) rd, of cjRow allVars] assms(2) have
    ct: "ctable c = take (length table - 2) table @
                 [fst (derivedRows table basicVars cjRow allVars), ?cz]"
    and cs: "(centering c = None \<and> cleaving c = None \<and> (\<forall>v\<in>set ?cand. v \<le> eps10)) \<or>
               (\<exists>m k. Math_max ?cand = Some m \<and> eps10 < m \<and> indexOf ?cand m = Some k \<and>
                   centering c = Some (allVars ! k) \<and>
                   cleaving c = map_option (\<lambda>i. basicVars ! i)
                                  (leavingRow (take (length table - 2) table) k))"
    by (auto simp: Let_def)
  have la: "last (ctable c) = ?cz" using ct by simp
  from cs show ?thesis
  proof
    assume "centering c = None \<and> cleaving c = None \<and> (\<forall>v\<in>set ?cand. v \<le> eps10)"
    with la show ?thesis by simp
  next
    assume "\<exists>m k. Math_max ?cand = Some m \<and> eps10 < m \<and> indexOf ?cand m = Some k \<and>
                   centering c = Some (allVars ! k) \<and>
                   cleaving c = map_option (\<lambda>i. basicVars ! i)
                                  (leavingRow (take (length table - 2) table) k)"
    then obtain m k where mx: "Math_max ?cand = Some m" and big: "eps10 < m"
      and en: "centering c = Some (allVars ! k)" by blast
    from mx have "m \<in> set ?cand" using Math_max_Some by blast
    with big have "\<not> (\<forall>v\<in>set ?cand. v \<le> eps10)" by (metis not_le)
    with en la show ?thesis by simp
  qed
qed

lemma step_optimal_iff:
  assumes "2 \<le> length (simplexTable s)"
  shows "handleNextIteration s =
           Inr (s\<lparr>message := Some ''Optimal solution reached.'', enteringVar := None, leavingVar := None\<rparr>)
         \<longleftrightarrow> (\<forall>v\<in>set (take (length (variables s)) (last (simplexTable s))). v \<le> eps10)"
proof -
  let ?cand = "take (length (variables s)) (last (simplexTable s))"
  let ?opt = "s\<lparr>message := Some ''Optimal solution reached.'', enteringVar := None, leavingVar := None\<rparr>"
  have l: "\<not> length (simplexTable s) < 2" using assms by simp
  show ?thesis
  proof (cases "Math_max ?cand")
    case None
    then have e: "?cand = []" by (simp add: Math_max_None)
    have "\<forall>v\<in>set ?cand. v \<le> eps10" unfolding e by simp
    moreover have "handleNextIteration s = Inr ?opt"
      using l None by (simp add: handleNextIteration_def Let_def)
    ultimately show ?thesis by simp
  next
    case (Some m)
    then have mem: "m \<in> set ?cand" and ub: "\<forall>x\<in>set ?cand. x \<le> m"
      using Math_max_Some by blast+
    show ?thesis
    proof (cases "m \<le> eps10")
      case True
      with ub have "\<forall>v\<in>set ?cand. v \<le> eps10" by fastforce
      moreover have "handleNextIteration s = Inr ?opt"
        using l Some True by (simp add: handleNextIteration_def Let_def)
      ultimately show ?thesis by simp
    next
      case False
      with mem have n: "\<not> (\<forall>v\<in>set ?cand. v \<le> eps10)" by blast
      have "\<forall>s'. handleNextIteration s = Inr s' \<longrightarrow>
              message s' \<noteq> Some ''Optimal solution reached.'' \<or> iteration s' = iteration s + 1"
        using l Some False
        by (auto simp add: handleNextIteration_def pivotStep_def Let_def
            split: option.splits sum.splits failure.splits if_splits)
      moreover have "message ?opt = Some ''Optimal solution reached.''" "iteration ?opt = iteration s"
        by simp_all
      ultimately have "handleNextIteration s \<noteq> Inr ?opt"
        by (metis n_not_Suc_n Suc_eq_plus1)
      with n show ?thesis by simp
    qed
  qed
qed

text \<open>
  C8. Take a session state with a tableau of at least two rows whose derived rows are
  the ones \<^verbatim>\<open>computeZjAndCjMinusZj\<close> computes for it (every handler stores the computed
  table). \<^verbatim>\<open>computeZjAndCjMinusZj\<close> reports no entering variable exactly when
  \<^verbatim>\<open>handleNextIteration\<close> takes its early return for optimality, so both apply the same
  criterion; the step then changes nothing but the message, which becomes
  \<open>Optimal solution reached.\<close>, and the entering and leaving variable, which are cleared.
\<close>

theorem C8_optimal_step:
  assumes "2 \<le> length (simplexTable s)"
    and "computeZjAndCjMinusZj (simplexTable s) (basicVariables s) (cj s) (variables s) = Inr c"
    and "ctable c = simplexTable s"
  shows "(centering c = None \<longleftrightarrow>
            handleNextIteration s =
              Inr (s\<lparr>message := Some ''Optimal solution reached.'',
                      enteringVar := None, leavingVar := None\<rparr>)) \<and>
         (centering c = None \<longrightarrow>
            (\<exists>s'. handleNextIteration s = Inr s' \<and>
                  simplexTable s' = simplexTable s \<and> basicVariables s' = basicVariables s \<and>
                  cj s' = cj s \<and> variables s' = variables s \<and> iteration s' = iteration s \<and>
                  message s' = Some ''Optimal solution reached.''))"
proof -
  let ?opt = "s\<lparr>message := Some ''Optimal solution reached.'', enteringVar := None, leavingVar := None\<rparr>"
  have iff: "centering c = None \<longleftrightarrow> handleNextIteration s = Inr ?opt"
    using compute_optimal_row [OF assms(1,2)] step_optimal_iff [OF assms(1)] assms(3) by simp
  have "centering c = None \<longrightarrow>
            (\<exists>s'. handleNextIteration s = Inr s' \<and>
                  simplexTable s' = simplexTable s \<and> basicVariables s' = basicVariables s \<and>
                  cj s' = cj s \<and> variables s' = variables s \<and> iteration s' = iteration s \<and>
                  message s' = Some ''Optimal solution reached.'')"
  proof
    assume "centering c = None"
    with iff have "handleNextIteration s = Inr ?opt" by simp
    then show "\<exists>s'. handleNextIteration s = Inr s' \<and>
                  simplexTable s' = simplexTable s \<and> basicVariables s' = basicVariables s \<and>
                  cj s' = cj s \<and> variables s' = variables s \<and> iteration s' = iteration s \<and>
                  message s' = Some ''Optimal solution reached.''"
      by (intro exI [of _ ?opt]) simp
  qed
  with iff show ?thesis by blast
qed

lemma evalOpt:
  "computeZjAndCjMinusZj (simplexTable stateOpt) (basicVariables stateOpt) (cj stateOpt)
     (variables stateOpt) =
   Inr \<lparr>ctable = simplexTable stateOpt, centering = None, cleaving = None\<rparr>"
  by code_simp

theorem C8_optimal_step_witness:
  "2 \<le> length (simplexTable stateOpt) \<and>
   computeZjAndCjMinusZj (simplexTable stateOpt) (basicVariables stateOpt) (cj stateOpt)
     (variables stateOpt) =
     Inr \<lparr>ctable = simplexTable stateOpt, centering = None, cleaving = None\<rparr> \<and>
   handleNextIteration stateOpt =
     Inr (stateOpt\<lparr>message := Some ''Optimal solution reached.'',
                    enteringVar := None, leavingVar := None\<rparr>)"
proof -
  have h1: "2 \<le> length (simplexTable stateOpt)" by (simp add: stateOpt_def)
  have h3: "ctable \<lparr>ctable = simplexTable stateOpt, centering = None, cleaving = None\<rparr>
              = simplexTable stateOpt" by simp
  have n: "centering \<lparr>ctable = simplexTable stateOpt, centering = None, cleaving = None\<rparr> = None"
    by simp
  from C8_optimal_step [OF h1 evalOpt h3] n h1 evalOpt show ?thesis by blast
qed

section \<open>Basis entries outside the variable list\<close>

lemma cbValue_unknown: "b \<notin> set allVars \<Longrightarrow> cbValue cjRow allVars b = 0"
  by (simp add: cbValue_def indexOf_None_iff [THEN iffD2])

text \<open>
  C10. The CB value of a basis entry that is not in the variable list is 0, so for a
  well-formed tableau \<^verbatim>\<open>computeZjAndCjMinusZj\<close> returns the derived rows whatever the
  basis names: the Zj entry of a column is the sum over the rows whose basic variable is
  in the variable list, the other rows contributing 0.
\<close>

theorem C10_unknown_basis:
  assumes "wellFormed table basicVars cjRow allVars"
  shows "(\<forall>b. b \<notin> set allVars \<longrightarrow> cbValue cjRow allVars b = 0) \<and>
         (\<exists>c. computeZjAndCjMinusZj table basicVars cjRow allVars = Inr c \<and>
              length (ctable c) = length table \<and>
              (\<forall>col\<le>length allVars.
                 ctable c ! (length table - 2) ! col =
                   snap10 (\<Sum>i\<in>{i. i < length table - 2 \<and> basicVars ! i \<in> set allVars}.
                             cbValue cjRow allVars (basicVars ! i) * table ! i ! col)))"
proof -
  let ?m = "length table - 2"
  let ?zj = "fst (derivedRows table basicVars cjRow allVars)"
  let ?cz = "snd (derivedRows table basicVars cjRow allVars)"
  from assms have len: "2 \<le> length table" and b: "length basicVars = ?m"
    by (simp_all add: wellFormed_def)
  note rd = wellFormed_readable [OF assms]
  note cols = wellFormed_cols [OF assms]
  from compute_table [OF len rd] obtain c where
    c: "computeZjAndCjMinusZj table basicVars cjRow allVars = Inr c"
       "ctable c = take ?m table @ [?zj, ?cz]" by blast
  have lt: "length (take ?m table) = ?m" using len by simp
  have zrow: "ctable c ! ?m = ?zj" using c(2) lt by (simp add: nth_append)
  have lc: "length (ctable c) = length table" using c(2) len by simp
  have zj: "\<forall>col\<le>length allVars. ?zj ! col =
              snap10 (\<Sum>i\<in>{i. i < ?m \<and> basicVars ! i \<in> set allVars}.
                        cbValue cjRow allVars (basicVars ! i) * table ! i ! col)"
  proof (intro allI impI)
    fix col assume "col \<le> length allVars"
    then have cc: "col < length (table ! 0)" using cols by simp
    let ?g = "\<lambda>i. cbValue cjRow allVars (basicVars ! i) * table ! i ! col"
    have "sum ?g {..<?m} = sum ?g {i. i < ?m \<and> basicVars ! i \<in> set allVars}"
    proof (rule sum.mono_neutral_right)
      show "finite {..<?m}" by simp
      show "{i. i < ?m \<and> basicVars ! i \<in> set allVars} \<subseteq> {..<?m}" by auto
      show "\<forall>i\<in>{..<?m} - {i. i < ?m \<and> basicVars ! i \<in> set allVars}. ?g i = 0"
        by (auto simp add: cbValue_unknown)
    qed
    with derivedRows_zj [OF cc, of basicVars cjRow allVars] b
    show "?zj ! col = snap10 (sum ?g {i. i < ?m \<and> basicVars ! i \<in> set allVars})" by simp
  qed
  from c(1) lc zrow zj cbValue_unknown show ?thesis by (intro conjI exI [of _ c]) simp_all
qed

theorem C10_unknown_basis_witness:
  "wellFormed tableU basicsU cjU varsU \<and> basicsU ! 0 = ''s1'' \<and> ''s1'' \<notin> set varsU \<and>
   cbValue cjU varsU ''s1'' = 0 \<and>
   (\<exists>c. computeZjAndCjMinusZj tableU basicsU cjU varsU = Inr c \<and> length (ctable c) = length tableU)"
proof -
  have h: "wellFormed tableU basicsU cjU varsU" by code_simp
  have b: "basicsU ! 0 = ''s1''" by (simp add: basicsU_def)
  have n: "''s1'' \<notin> set varsU" by (simp add: varsU_def)
  from C10_unknown_basis [OF h] h b n show ?thesis by blast
qed

section \<open>Phase 1 at optimality\<close>







section \<open>Phase 2 construction\<close>

lemma keptIndices_eq:
  "keptIndices vars = filter (\<lambda>j. \<not> startsWith (vars ! j) ''a'') [0..<length vars]"
  unfolding keptIndices_def artificialIndices_def by (rule filter_cong) auto

lemma filteredVariables_eq:
  "filteredVariables vars = map (\<lambda>j. vars ! j) (keptIndices vars)"
proof -
  have "filter (\<lambda>v. \<not> startsWith v ''a'') (map (\<lambda>j. vars ! j) [0..<length vars])
          = map (\<lambda>j. vars ! j) (filter (\<lambda>j. \<not> startsWith (vars ! j) ''a'') [0..<length vars])"
    by (simp add: filter_map comp_def)
  then show ?thesis by (simp add: filteredVariables_def keptIndices_eq map_nth)
qed

lemma length_filteredVariables:
  "length (filteredVariables vars) = length (keptIndices vars)"
  by (simp add: filteredVariables_eq)

lemma keptIndices_bound: "j \<in> set (keptIndices vars) \<Longrightarrow> j < length vars"
  by (simp add: keptIndices_eq)

lemma butlast_as_map:
  assumes "length row = n + 1"
  shows "butlast row = map (\<lambda>j. row ! j) [0..<n]"
  using assms by (intro nth_equalityI) (simp_all add: nth_butlast)

lemma phase2Row_length:
  assumes "length row = length vars + 1"
  shows "length (phase2Row vars row) = length (filteredVariables vars) + 1"
  using assms by (simp add: phase2Row_def length_filteredVariables)

lemma phase2Row_last:
  assumes "length row = length vars + 1"
  shows "last (phase2Row vars row) = last row"
  using assms by (simp add: phase2Row_def)

lemma phase2Row_pairs:
  assumes "length row = length vars + 1"
  shows "zip (filteredVariables vars) (butlast (phase2Row vars row)) =
           filter (\<lambda>(v, x). \<not> startsWith v ''a'') (zip vars (butlast row))"
proof -
  let ?n = "length vars"
  let ?P = "\<lambda>j. \<not> startsWith (vars ! j) ''a''"
  let ?h = "\<lambda>j. (vars ! j, row ! j)"
  have bl: "butlast (phase2Row vars row) = map (\<lambda>j. row ! j) (keptIndices vars)"
    using assms by (simp add: phase2Row_def)
  have lhs: "zip (filteredVariables vars) (butlast (phase2Row vars row)) = map ?h (keptIndices vars)"
    unfolding bl filteredVariables_eq by (simp add: zip_map_map zip_same_conv_map)
  have "zip vars (butlast row) = zip (map (\<lambda>j. vars ! j) [0..<?n]) (map (\<lambda>j. row ! j) [0..<?n])"
    using butlast_as_map [OF assms] by (simp add: map_nth)
  also have "\<dots> = map ?h [0..<?n]"
    by (simp add: zip_map_map zip_same_conv_map)
  finally have z: "zip vars (butlast row) = map ?h [0..<?n]" .
  have "filter (\<lambda>(v, x). \<not> startsWith v ''a'') (map ?h [0..<?n]) = map ?h (filter ?P [0..<?n])"
    by (simp add: filter_map comp_def)
  with z lhs show ?thesis by (simp add: keptIndices_eq)
qed

lemma length_phase2Objective: "length (phase2Objective obj opt vs i0) = length vs"
  by (induction vs arbitrary: i0) simp_all

lemma phase2Objective_nth:
  "k < length vs \<Longrightarrow>
   phase2Objective obj opt vs i0 ! k =
     (if startsWith (vs ! k) ''x''
      then (let m = i0 + length (filter (\<lambda>v. startsWith v ''x'') (take k vs))
            in if m < length obj then (if opt = ''Minimize'' then - (obj ! m) else obj ! m) else 0)
      else 0)"
proof (induction vs arbitrary: i0 k)
  case Nil
  then show ?case by simp
next
  case (Cons v rest)
  show ?case
  proof (cases k)
    case 0
    then show ?thesis by (simp add: Let_def)
  next
    case (Suc k')
    with Cons.prems have k': "k' < length rest" by simp
    show ?thesis
    proof (cases "startsWith v ''x'' \<and> i0 < length obj")
      case True
      with Suc Cons.IH [OF k', of "Suc i0"] show ?thesis by (simp add: Let_def)
    next
      case False
      then have "phase2Objective obj opt (v # rest) i0 ! k = phase2Objective obj opt rest i0 ! k'"
        using Suc by auto
      with False Suc Cons.IH [OF k', of i0] show ?thesis by (auto simp add: Let_def)
    qed
  qed
qed

lemma newBasicVariables_nth:
  assumes "i < length basics"
  shows "newBasicVariables filtered basics ! i =
           (if startsWith (basics ! i) ''a''
            then (case find (\<lambda>v. startsWith v ''s'') filtered of Some v \<Rightarrow> v | None \<Rightarrow> ''s1'')
            else basics ! i)"
  using assms by (simp add: newBasicVariables_def)

lemma createPhase2Table_result:
  assumes "2 \<le> length (phase1Table p)"
    and "list_all (\<lambda>r. length r = length (phase1Variables p) + 1) (phase1Table p)"
    and "length (phase1BasicVariables p) = length (phase1Table p) - 2"
  shows "\<exists>s. createPhase2Table p = Inr s \<and>
           variables s = filteredVariables (phase1Variables p) \<and>
           cj s = phase2Objective (originalObjective p) (optType p) (filteredVariables (phase1Variables p)) 0 \<and>
           basicVariables s = newBasicVariables (filteredVariables (phase1Variables p)) (phase1BasicVariables p) \<and>
           iteration s = 1 \<and> message s = None \<and>
           length (simplexTable s) = length (phase1Table p) \<and>
           take (length (phase1Table p) - 2) (simplexTable s) =
             map (phase2Row (phase1Variables p)) (take (length (phase1Table p) - 2) (phase1Table p))"
proof -
  let ?vars = "phase1Variables p"
  let ?m = "length (phase1Table p) - 2"
  let ?rows = "take ?m (phase1Table p)"
  let ?filtered = "filteredVariables ?vars"
  let ?obj = "phase2Objective (originalObjective p) (optType p) ?filtered 0"
  let ?nb = "newBasicVariables ?filtered (phase1BasicVariables p)"
  let ?cols = "length ?filtered + 1"
  let ?t2 = "map (phase2Row ?vars) ?rows @ [replicate ?cols 0, replicate ?cols 0]"
  have rowlen: "\<And>row. row \<in> set ?rows \<Longrightarrow> length row = length ?vars + 1"
    using assms(2) by (auto simp add: list_all_iff dest: in_set_takeD)
  have guard: "list_all (\<lambda>row. list_all (\<lambda>j. j < length row) (keptIndices ?vars)) ?rows"
    unfolding list_all_iff
  proof (intro ballI)
    fix row j assume "row \<in> set ?rows" "j \<in> set (keptIndices ?vars)"
    with rowlen [of row] keptIndices_bound [of j ?vars] show "j < length row" by simp
  qed
  have lr: "length ?rows = ?m" using assms(1) by simp
  have lt2: "length ?t2 = ?m + 2" using lr by simp
  have m2: "length ?t2 - 2 = ?m" using lt2 by simp
  have tk: "take ?m ?t2 = map (phase2Row ?vars) ?rows" using lr by simp
  have r2len: "\<And>r. r \<in> set ?t2 \<Longrightarrow> length r = ?cols"
  proof -
    fix r assume "r \<in> set ?t2"
    then have "r \<in> phase2Row ?vars ` set ?rows \<or> r = replicate ?cols 0" by auto
    then show "length r = ?cols"
    proof
      assume "r \<in> phase2Row ?vars ` set ?rows"
      then obtain row where "row \<in> set ?rows" "r = phase2Row ?vars row" by blast
      with rowlen [of row] phase2Row_length [of row ?vars] show ?thesis by simp
    next
      assume "r = replicate ?cols 0"
      then show ?thesis by simp
    qed
  qed
  have "0 < length ?t2" using lt2 by simp
  then have "?t2 ! 0 \<in> set ?t2" by (rule nth_mem)
  then have c0: "length (?t2 ! 0) = ?cols" by (rule r2len)
  have "\<forall>r\<in>set (take (length ?t2 - 2) ?t2). length (?t2 ! 0) \<le> length r"
  proof
    fix r assume "r \<in> set (take (length ?t2 - 2) ?t2)"
    then have "r \<in> set ?t2" by (rule in_set_takeD)
    with r2len [of r] c0 show "length (?t2 ! 0) \<le> length r" by simp
  qed
  moreover have "length ?t2 - 2 \<le> length ?nb"
    using m2 assms(3) by (simp add: newBasicVariables_def)
  ultimately have rd: "readable ?t2 ?nb"
    unfolding readable_def Let_def list_all_iff by blast
  have l2: "2 \<le> length ?t2" using lt2 by simp
  from compute_table [OF l2 rd, of ?obj ?filtered] obtain c where
    c: "computeZjAndCjMinusZj ?t2 ?nb ?obj ?filtered = Inr c"
    and ct: "ctable c = take (length ?t2 - 2) ?t2 @
               [fst (derivedRows ?t2 ?nb ?obj ?filtered), snd (derivedRows ?t2 ?nb ?obj ?filtered)]"
    by blast
  have lc: "length (ctable c) = length (phase1Table p)"
    unfolding ct m2 tk using lr assms(1) by simp
  have tc: "take ?m (ctable c) = map (phase2Row ?vars) ?rows"
    unfolding ct m2 tk using lr by simp
  have "createPhase2Table p =
          Inr \<lparr>simplexTable = ctable c, variables = ?filtered, cj = ?obj, basicVariables = ?nb,
               enteringVar = centering c, leavingVar = cleaving c, iteration = 1, message = None\<rparr>"
    using guard c by (simp add: createPhase2Table_def Let_def)
  with lc tc show ?thesis by simp
qed

text \<open>
  C7. Take route parameters with a well-formed Phase 1 tableau. \<^verbatim>\<open>createPhase2Table\<close>
  yields a session in which: the variable list is the Phase 1 list without the names
  that start with \<open>a\<close>; every constraint row keeps, in order and aligned with the
  variables, exactly the coefficients of the variables that are not artificial, and its
  right-hand side; Cj gives 0 to every variable that does not start with \<open>x\<close> and gives
  the \<open>m\<close>-th decision variable (counting from 0) the \<open>m\<close>-th original objective
  coefficient, negated when the direction is \<open>Minimize\<close> (0 if the objective is too
  short); a basis entry that does not start with \<open>a\<close> is kept, and one that does becomes
  the first variable of the new list that starts with \<open>s\<close>, whether or not that slack
  is already basic in another row, or \<open>s1\<close> when the list has no such variable.
\<close>

theorem C7_phase2_construction:
  assumes "2 \<le> length (phase1Table p)"
    and "list_all (\<lambda>r. length r = length (phase1Variables p) + 1) (phase1Table p)"
    and "length (phase1BasicVariables p) = length (phase1Table p) - 2"
  shows "\<exists>s. createPhase2Table p = Inr s \<and>
           variables s = filter (\<lambda>v. \<not> startsWith v ''a'') (phase1Variables p) \<and>
           length (simplexTable s) = length (phase1Table p) \<and>
           (\<forall>i<length (phase1Table p) - 2.
              length (simplexTable s ! i) = length (variables s) + 1 \<and>
              zip (variables s) (butlast (simplexTable s ! i)) =
                filter (\<lambda>(v, x). \<not> startsWith v ''a'')
                  (zip (phase1Variables p) (butlast (phase1Table p ! i))) \<and>
              last (simplexTable s ! i) = last (phase1Table p ! i)) \<and>
           length (cj s) = length (variables s) \<and>
           (\<forall>k<length (variables s).
              cj s ! k =
                (if startsWith (variables s ! k) ''x''
                 then (let m = length (filter (\<lambda>v. startsWith v ''x'') (take k (variables s)))
                       in if m < length (originalObjective p)
                          then (if optType p = ''Minimize'' then - (originalObjective p ! m)
                                else originalObjective p ! m)
                          else 0)
                 else 0)) \<and>
           length (basicVariables s) = length (phase1BasicVariables p) \<and>
           (\<forall>i<length (phase1BasicVariables p).
              (\<not> startsWith (phase1BasicVariables p ! i) ''a'' \<longrightarrow>
                 basicVariables s ! i = phase1BasicVariables p ! i) \<and>
              (startsWith (phase1BasicVariables p ! i) ''a'' \<longrightarrow>
                 (\<forall>k<length (variables s).
                    startsWith (variables s ! k) ''s'' \<and>
                    (\<forall>j<k. \<not> startsWith (variables s ! j) ''s'') \<longrightarrow>
                    basicVariables s ! i = variables s ! k) \<and>
                 ((\<forall>v\<in>set (variables s). \<not> startsWith v ''s'') \<longrightarrow>
                    basicVariables s ! i = ''s1'')))"
proof -
  let ?vars = "phase1Variables p"
  let ?m = "length (phase1Table p) - 2"
  let ?filtered = "filteredVariables ?vars"
  from createPhase2Table_result [OF assms] obtain s where
    res: "createPhase2Table p = Inr s"
    and vs: "variables s = ?filtered"
    and cs: "cj s = phase2Objective (originalObjective p) (optType p) ?filtered 0"
    and bs: "basicVariables s = newBasicVariables ?filtered (phase1BasicVariables p)"
    and ls: "length (simplexTable s) = length (phase1Table p)"
    and ts: "take ?m (simplexTable s) = map (phase2Row ?vars) (take ?m (phase1Table p))"
    by blast
  have v: "variables s = filter (\<lambda>v. \<not> startsWith v ''a'') ?vars"
    using vs by (simp add: filteredVariables_def)
  have rows: "\<forall>i<?m.
              length (simplexTable s ! i) = length (variables s) + 1 \<and>
              zip (variables s) (butlast (simplexTable s ! i)) =
                filter (\<lambda>(v, x). \<not> startsWith v ''a'')
                  (zip ?vars (butlast (phase1Table p ! i))) \<and>
              last (simplexTable s ! i) = last (phase1Table p ! i)"
  proof (intro allI impI)
    fix i assume i: "i < ?m"
    then have il: "i < length (phase1Table p)" by simp
    have rl: "length (phase1Table p ! i) = length ?vars + 1"
      using assms(2) il by (simp add: list_all_length)
    have "take ?m (simplexTable s) ! i = map (phase2Row ?vars) (take ?m (phase1Table p)) ! i"
      using ts by simp
    then have ri: "simplexTable s ! i = phase2Row ?vars (phase1Table p ! i)"
      using i il by simp
    show "length (simplexTable s ! i) = length (variables s) + 1 \<and>
              zip (variables s) (butlast (simplexTable s ! i)) =
                filter (\<lambda>(v, x). \<not> startsWith v ''a'')
                  (zip ?vars (butlast (phase1Table p ! i))) \<and>
              last (simplexTable s ! i) = last (phase1Table p ! i)"
      unfolding ri vs
      using phase2Row_length [OF rl] phase2Row_pairs [OF rl] phase2Row_last [OF rl] by simp
  qed
  have lcj: "length (cj s) = length (variables s)"
    using cs vs by (simp add: length_phase2Objective)
  have cjk: "\<forall>k<length (variables s).
              cj s ! k =
                (if startsWith (variables s ! k) ''x''
                 then (let m = length (filter (\<lambda>v. startsWith v ''x'') (take k (variables s)))
                       in if m < length (originalObjective p)
                          then (if optType p = ''Minimize'' then - (originalObjective p ! m)
                                else originalObjective p ! m)
                          else 0)
                 else 0)"
    unfolding cs vs
    using phase2Objective_nth [of _ ?filtered "originalObjective p" "optType p" 0] by simp
  have lb: "length (basicVariables s) = length (phase1BasicVariables p)"
    using bs by (simp add: newBasicVariables_def)
  have bk: "\<forall>i<length (phase1BasicVariables p).
              (\<not> startsWith (phase1BasicVariables p ! i) ''a'' \<longrightarrow>
                 basicVariables s ! i = phase1BasicVariables p ! i) \<and>
              (startsWith (phase1BasicVariables p ! i) ''a'' \<longrightarrow>
                 (\<forall>k<length (variables s).
                    startsWith (variables s ! k) ''s'' \<and>
                    (\<forall>j<k. \<not> startsWith (variables s ! j) ''s'') \<longrightarrow>
                    basicVariables s ! i = variables s ! k) \<and>
                 ((\<forall>v\<in>set (variables s). \<not> startsWith v ''s'') \<longrightarrow>
                    basicVariables s ! i = ''s1''))"
  proof (intro allI impI conjI)
    fix i assume i: "i < length (phase1BasicVariables p)"
    note n = newBasicVariables_nth [OF i, of ?filtered]
    {
      assume "\<not> startsWith (phase1BasicVariables p ! i) ''a''"
      with n show "basicVariables s ! i = phase1BasicVariables p ! i" by (simp add: bs)
    }
    {
      fix k
      assume a: "startsWith (phase1BasicVariables p ! i) ''a''"
        and k: "k < length (variables s)"
        and f: "startsWith (variables s ! k) ''s'' \<and> (\<forall>j<k. \<not> startsWith (variables s ! j) ''s'')"
      from k f have "find (\<lambda>v. startsWith v ''s'') ?filtered = Some (?filtered ! k)"
        unfolding find_Some_iff vs by blast
      with n a show "basicVariables s ! i = variables s ! k" by (simp add: bs vs)
    }
    {
      assume a: "startsWith (phase1BasicVariables p ! i) ''a''"
        and f: "\<forall>v\<in>set (variables s). \<not> startsWith v ''s''"
      from f have "find (\<lambda>v. startsWith v ''s'') ?filtered = None"
        unfolding find_None_iff vs by blast
      with n a show "basicVariables s ! i = ''s1''" by (simp add: bs)
    }
  qed
  from res v ls rows lcj cjk lb bk show ?thesis by blast
qed

lemma evalD:
  "createPhase2Table paramsD =
     Inr \<lparr>simplexTable = [[1, 1, 2], [0, 0, 0], [3, 3, 6], [0, - 3, 0]],
          variables = [''x1'', ''s1''], cj = [3, 0], basicVariables = [''x1'', ''s1''],
          enteringVar = None, leavingVar = None, iteration = 1, message = None\<rparr>"
  by code_simp

lemma evalB:
  "createPhase2Table paramsB =
     Inr \<lparr>simplexTable = [[1, 0, 5/3], [0, 1, 2/3], [- 1, - 1, - 7/3], [0, 0, 0]],
          variables = [''x1'', ''x2''], cj = [- 1, - 1], basicVariables = [''x1'', ''x2''],
          enteringVar = None, leavingVar = None, iteration = 1, message = None\<rparr>"
  by code_simp

theorem C7_phase2_construction_witness:
  "2 \<le> length (phase1Table paramsD) \<and>
   list_all (\<lambda>r. length r = length (phase1Variables paramsD) + 1) (phase1Table paramsD) \<and>
   length (phase1BasicVariables paramsD) = length (phase1Table paramsD) - 2 \<and>
   (\<exists>s. createPhase2Table paramsD = Inr s \<and>
        variables s = [''x1'', ''s1''] \<and> cj s = [3, 0] \<and>
        basicVariables s = [''x1'', ''s1''] \<and>
        length (simplexTable s) = length (phase1Table paramsD) \<and>
        length (cj s) = length (variables s))"
proof -
  have h1: "2 \<le> length (phase1Table paramsD)" by code_simp
  have h2: "list_all (\<lambda>r. length r = length (phase1Variables paramsD) + 1) (phase1Table paramsD)"
    by code_simp
  have h3: "length (phase1BasicVariables paramsD) = length (phase1Table paramsD) - 2" by code_simp
  from C7_phase2_construction [OF h1 h2 h3] obtain s where
    s: "createPhase2Table paramsD = Inr s"
    and l: "length (simplexTable s) = length (phase1Table paramsD)"
    and c: "length (cj s) = length (variables s)"
    by blast
  from s evalD have
    "variables s = [''x1'', ''s1'']" "cj s = [3, 0]" "basicVariables s = [''x1'', ''s1'']"
    by auto
  with h1 h2 h3 s l c show ?thesis by blast
qed

section \<open>Automatic solving\<close>

lemma leavingRowAt_Some:
  assumes "leavingRowAt rows cols e = Some L"
  shows "L < length rows \<and> (\<exists>c. jsnth (rows ! L) e = Some c \<and> eps10 < c)"
proof -
  let ?qs = "ratiosAt rows cols e"
  from ratioLoop_spec [of ?qs 0 None None] assms
  obtain r where acc: "acceptedAt ?qs None L r"
    by (auto simp add: leavingRowAt_def)
  then have L: "L < length rows" and q: "?qs ! L = Some r"
    by (simp_all add: acceptedAt_def ratiosAt_def)
  from q L have "rowRatio (jsnth (rows ! L) e) (rhsAt (rows ! L) cols) = Some r"
    by (simp add: ratiosAt_def)
  then have "\<exists>c. jsnth (rows ! L) e = Some c \<and> eps10 < c"
    by (auto simp add: rowRatio_def split: option.splits if_splits)
  with L show ?thesis by simp
qed

lemma rectangular_readable:
  assumes "rectangular table" and "length table - 2 \<le> length basicVars"
  shows "readable table basicVars"
proof -
  have "\<forall>r\<in>set (take (length table - 2) table). length (table ! 0) \<le> length r"
  proof
    fix r assume "r \<in> set (take (length table - 2) table)"
    then have "r \<in> set table" by (rule in_set_takeD)
    then obtain i where "i < length table" "r = table ! i" by (auto simp add: in_set_conv_nth)
    with rectangular_row [OF assms(1), of i] show "length (table ! 0) \<le> length r" by simp
  qed
  with assms(2) show ?thesis unfolding readable_def Let_def list_all_iff by blast
qed

lemma compute_rectangular:
  assumes "rectangular table" and "length table - 2 \<le> length basicVars"
  shows "\<exists>c. computeZjAndCjMinusZj table basicVars cjRow allVars = Inr c \<and>
             rectangular (ctable c) \<and> length (ctable c) = length table \<and>
             length (ctable c ! 0) = length (table ! 0)"
proof -
  let ?m = "length table - 2"
  let ?zj = "fst (derivedRows table basicVars cjRow allVars)"
  let ?cz = "snd (derivedRows table basicVars cjRow allVars)"
  from assms(1) have len: "2 \<le> length table" by (simp add: rectangular_def)
  note rd = rectangular_readable [OF assms]
  from compute_table [OF len rd, of cjRow allVars] obtain c where
    c: "computeZjAndCjMinusZj table basicVars cjRow allVars = Inr c"
    and ct: "ctable c = take ?m table @ [?zj, ?cz]" by blast
  have lc: "length (ctable c) = length table" using ct len by simp
  have rows: "\<And>r. r \<in> set (ctable c) \<Longrightarrow> length r = length (table ! 0)"
  proof -
    fix r assume "r \<in> set (ctable c)"
    then have "r \<in> set (take ?m table) \<or> r = ?zj \<or> r = ?cz" using ct by auto
    then show "length r = length (table ! 0)"
    proof (elim disjE)
      assume "r \<in> set (take ?m table)"
      then have "r \<in> set table" by (rule in_set_takeD)
      then obtain i where "i < length table" "r = table ! i" by (auto simp add: in_set_conv_nth)
      with rectangular_row [OF assms(1), of i] show ?thesis by simp
    next
      assume "r = ?zj"
      then show ?thesis using derivedRows_length [of table basicVars cjRow allVars] by simp
    next
      assume "r = ?cz"
      then show ?thesis using derivedRows_length [of table basicVars cjRow allVars] by simp
    qed
  qed
  have "0 < length (ctable c)" using lc len by linarith
  then have "ctable c ! 0 \<in> set (ctable c)" by (rule nth_mem)
  then have c0: "length (ctable c ! 0) = length (table ! 0)" by (rule rows)
  have "rectangular (ctable c)"
    unfolding rectangular_def list_all_iff using lc len rows c0 by simp
  with c lc c0 show ?thesis by blast
qed

lemma eps12_lt_eps10: "eps12 < eps10"
  by (simp add: eps12_def eps10_def)




text \<open>
  \<^verbatim>\<open>handleNextIteration\<close> on a rectangular tableau with one basis entry per constraint
  row: the step returns a session, and its message is none, the optimal message or the
  unbounded message; the pivot it chooses is above 1e-10, so the \<^verbatim>\<open>catch\<close> branch is
  not taken.
\<close>

lemma step_total:
  assumes "rectangular (simplexTable s)"
    and "length (basicVariables s) = length (simplexTable s) - 2"
  shows "\<exists>s'. handleNextIteration s = Inr s' \<and>
           (message s' = None \<or> message s' = Some ''Optimal solution reached.'' \<or>
            message s' = Some ''Problem is unbounded (no valid leaving variable).'')"
proof -
  let ?t = "simplexTable s"
  let ?s0 = "s\<lparr>message := None\<rparr>"
  let ?cand = "take (length (variables s)) (last ?t)"
  let ?m = "length ?t - 2"
  let ?cols = "length (?t ! 0)"
  from assms(1) have len: "2 \<le> length ?t" by (simp add: rectangular_def)
  then have ne: "?t \<noteq> []" and l2: "\<not> length ?t < 2" by auto
  have lastlen: "length (last ?t) = ?cols"
  proof -
    have "last ?t = ?t ! (length ?t - 1)" using ne by (rule last_conv_nth)
    moreover have "length ?t - 1 < length ?t" using len by linarith
    ultimately show ?thesis using rectangular_row [OF assms(1)] by simp
  qed
  show ?thesis
  proof (cases "Math_max ?cand")
    case None
    with l2 show ?thesis by (simp add: handleNextIteration_def Let_def)
  next
    case (Some mx)
    then have mem: "mx \<in> set ?cand" using Math_max_Some by blast
    show ?thesis
    proof (cases "mx \<le> eps10")
      case True
      with l2 Some show ?thesis by (simp add: handleNextIteration_def Let_def)
    next
      case False
      from mem obtain e where ix: "indexOf ?cand mx = Some e"
        using indexOf_None_iff [of ?cand mx] by (cases "indexOf ?cand mx") auto
      then have el: "e < length ?cand" using indexOf_Some_iff [of ?cand mx e] by blast
      then have ec: "e < ?cols" and ev: "e < length (variables s)" using lastlen by simp_all
      show ?thesis
      proof (cases "leavingRowAt (take ?m ?t) ?cols e")
        case None
        with l2 Some False ix show ?thesis by (simp add: handleNextIteration_def Let_def)
      next
        case (Some L)
        from leavingRowAt_Some [OF Some] have Lt: "L < length (take ?m ?t)"
          and cv: "\<exists>c. jsnth (take ?m ?t ! L) e = Some c \<and> eps10 < c" by blast+
        from Lt have Lm: "L < ?m" by simp
        then have Ll: "L < length ?t" by simp
        from Lm have row: "take ?m ?t ! L = ?t ! L" by simp
        have "length (?t ! L) = ?cols" by (rule rectangular_row [OF assms(1) Ll])
        with cv row ec have big: "eps10 < ?t ! L ! e" by (simp add: jsnth_def)
        have nz: "\<not> \<bar>?t ! L ! e\<bar> < eps12" using big eps12_lt_eps10 by linarith
        from performPivot_rectangular [OF assms(1) Ll ec nz] obtain t' where
          pv: "performPivot ?t L e = Inr t'" and rt: "rectangular t'"
          and lt: "length t' = length ?t" by blast
        have Lb: "L < length (basicVariables s)" using Lm assms(2) by simp
        let ?b' = "(basicVariables s)[L := variables s ! e]"
        have lb: "length t' - 2 \<le> length ?b'" using lt assms(2) by simp
        from compute_rectangular [OF rt lb, of "cj s" "variables s"] obtain c where
          c: "computeZjAndCjMinusZj t' ?b' (cj s) (variables s) = Inr c" by blast
        have "\<exists>s'. pivotStep ?s0 L e = Inr s' \<and>
           (message s' = None \<or> message s' = Some ''Optimal solution reached.'')"
          using pv Lb ev c by (simp add: pivotStep_def Let_def)
        moreover have "handleNextIteration s = pivotStep ?s0 L e"
          using l2 \<open>Math_max ?cand = Some mx\<close> False ix Some
          by (simp add: handleNextIteration_def Let_def)
        ultimately show ?thesis by auto
      qed
    qed
  qed
qed



lemma solve_alt_const_message:
  "solve_alt False s t b safety n = Inr (s', n') \<Longrightarrow> message s = None \<Longrightarrow>
     message s' \<noteq> None"
  apply (subst (asm) solve_alt.simps)
  apply (auto simp add: Let_def split: option.splits if_splits sum.splits failure.splits)
  done

lemma solve_alt_stopped:
  "solve_alt True s t b safety n = Inr (s', n') \<Longrightarrow> safety \<le> 100 \<Longrightarrow>
     message s' = Some ''Stopped: reached maximum automatic iterations limit.'' \<Longrightarrow>
     n' = n + (100 - safety)"
proof (induction "100 - safety" arbitrary: s t b safety n)
  case 0
  then have "100 < safety + 1" by simp
  with 0 show ?case by (subst (asm) solve_alt.simps) simp
next
  case (Suc k)
  then have small: "\<not> 100 < safety + 1" by simp
  have k: "k = 100 - Suc safety" using Suc.hyps(2) by simp
  note IH = Suc.hyps(1) [OF k]
  from Suc.prems small show ?case
    apply (subst (asm) solve_alt.simps)
    apply (simp add: Let_def split: option.splits if_splits sum.splits failure.splits)
    apply (auto dest!: IH)
    done
qed



lemma evalSolveA_alt_const:
  "handleSolveToOptimal_alt False stateA =
     Inr (\<lparr>simplexTable = [[1, 0, 1, 0, 0, 4], [0, 1, 0, 1/2, 0, 6], [3, 0, 0, - 1, 1, 6],
                           [0, 5, 0, 5/2, 0, 30], [3, 0, 0, - 5/2, 0, 0]],
           variables = [''x1'', ''x2'', ''s1'', ''s2'', ''s3''], cj = [3, 5, 0, 0, 0],
           basicVariables = [''s1'', ''x2'', ''s3''],
           enteringVar = Some ''x2'', leavingVar = Some ''s2'', iteration = 2,
           message = Some ''Error during automatic pivot: TypeError''\<rparr>, 1)"
  by code_simp

lemma evalSolveD:
  "handleSolveToOptimal stateD =
     Inr (\<lparr>simplexTable = [[1, - 1, 1, 1], [1, - 1, 1, 1], [0, 1, - 1, 0]],
           variables = [''x1'', ''x2'', ''s1''], cj = [1, 0, 0],
           basicVariables = [''x1''], enteringVar = Some ''x2'',
           leavingVar = None, iteration = 2,
           message = Some ''Problem is unbounded (no valid leaving variable).''\<rparr>, 1)"
  by code_simp




end
